theory Spec2Isabelle
  imports Main "HOL-Library.Sublist"
begin

section \<open>netplan generate: source discovery and backend dispatch (src/generate.c)\<close>

text \<open>
  The embedding follows \<^verbatim>\<open>src/generate.c\<close> function by function. The program is one
  \<^verbatim>\<open>main\<close> with a few static helpers; everything else it calls lives in other
  compilation units (parse.c, networkd.c, nm.c, util.c) or in GLib and libc. Calls that
  leave the file are recorded as events of a trace, in program order; what such a call
  returns is read from an environment record. The environment is a parameter of every
  definition, so each theorem holds for any behaviour of the collaborators.

  Diagnostics written with \<^verbatim>\<open>g_debug\<close> are not recorded. Collaborators with a
  \<^verbatim>\<open>void\<close> result are taken to return to their caller.
\<close>

subsection \<open>libc and GLib string helpers\<close>

text \<open>\<^verbatim>\<open>strstr(haystack, needle)\<close>: the first suffix of the haystack that starts with
  the needle, or NULL.\<close>

fun strstr :: "string \<Rightarrow> string \<Rightarrow> string option" where
  "strstr [] needle = (if needle = [] then Some [] else None)"
| "strstr (h # hs) needle =
     (if prefix needle (h # hs) then Some (h # hs) else strstr hs needle)"

text \<open>\<^verbatim>\<open>strcmp\<close> compares byte by byte, as unsigned char; only the sign of the result
  is used. A C string holds no NUL byte, so a proper prefix is smaller.\<close>

fun strcmp :: "string \<Rightarrow> string \<Rightarrow> int" where
  "strcmp [] [] = 0"
| "strcmp [] (b # bs) = - 1"
| "strcmp (a # as) [] = 1"
| "strcmp (a # as) (b # bs) =
     (if a = b then strcmp as bs else int (of_char a) - int (of_char b))"

definition G_IS_DIR_SEPARATOR :: "char \<Rightarrow> bool" where
  "G_IS_DIR_SEPARATOR c = (c = CHR ''/'')"

text \<open>\<^verbatim>\<open>g_path_get_basename\<close> (GLib, Unix): the last component of the path without
  trailing separators; \<^verbatim>\<open>"."\<close> for the empty string and \<^verbatim>\<open>"/"\<close> for a
  string of separators only.\<close>

definition g_path_get_basename :: "string \<Rightarrow> string" where
  "g_path_get_basename file_name =
     (if file_name = [] then ''.''
      else
        let upto_last_nonslash = rev (dropWhile G_IS_DIR_SEPARATOR (rev file_name))
        in if upto_last_nonslash = [] then ''/''
           else rev (takeWhile (\<lambda>c. \<not> G_IS_DIR_SEPARATOR c) (rev upto_last_nonslash)))"

text \<open>\<^verbatim>\<open>g_strjoin(NULL, ...)\<close> concatenates its arguments.\<close>

definition g_strjoin_NULL :: "string list \<Rightarrow> string" where
  "g_strjoin_NULL parts = concat parts"

text \<open>\<^verbatim>\<open>g_build_path\<close> with the one-byte separator \<^verbatim>\<open>"/"\<close> (GLib,
  \<^verbatim>\<open>g_build_path_va\<close>): empty elements are skipped; separators at the boundary of
  two elements are replaced by exactly one; the leading separators of the first
  non-empty element and the trailing separators of the last non-empty element are
  kept.\<close>

record build_path =
  result :: string
  is_first :: bool
  have_leading :: bool
  single_element :: "string option"
  last_trailing :: string

definition build_path_element :: "string \<Rightarrow> build_path \<Rightarrow> build_path" where
  "build_path_element element b =
     (if element = [] then b
      else
        let leading = takeWhile G_IS_DIR_SEPARATOR element;
            start = dropWhile G_IS_DIR_SEPARATOR element;
            body = rev (dropWhile G_IS_DIR_SEPARATOR (rev start));
            b1 = b\<lparr>last_trailing := rev (takeWhile G_IS_DIR_SEPARATOR (rev element))\<rparr>;
            b2 = (if \<not> have_leading b1
                  then b1\<lparr>single_element := (if body = [] then Some element else single_element b1),
                          result := result b1 @ leading,
                          have_leading := True\<rparr>
                  else b1\<lparr>single_element := None\<rparr>)
        in if body = [] then b2
           else b2\<lparr>result := (if is_first b2 then result b2 else result b2 @ ''/'') @ body,
                   is_first := False\<rparr>)"

definition g_build_path :: "string list \<Rightarrow> string" where
  "g_build_path elements =
     (let b = fold build_path_element elements
                \<lparr>result = [], is_first = True, have_leading = False,
                 single_element = None, last_trailing = []\<rparr>
      in case single_element b of
           Some e \<Rightarrow> e
         | None \<Rightarrow> result b @ last_trailing b)"

subsection \<open>GHashTable keyed by strings, and GList sorting\<close>

text \<open>The table of discovered files (\<^verbatim>\<open>configs\<close>) is an association list with one
  entry per key. \<^verbatim>\<open>g_hash_table_insert\<close> on a key that is already present keeps the
  old key and replaces the value.\<close>

fun g_hash_table_insert :: "('k \<times> 'v) list \<Rightarrow> 'k \<Rightarrow> 'v \<Rightarrow> ('k \<times> 'v) list" where
  "g_hash_table_insert [] key v = [(key, v)]"
| "g_hash_table_insert ((k, old) # tbl) key v =
     (if k = key then (k, v) # tbl else (k, old) # g_hash_table_insert tbl key v)"

definition g_hash_table_get_keys :: "('k \<times> 'v) list \<Rightarrow> 'k list" where
  "g_hash_table_get_keys tbl = map fst tbl"

definition g_hash_table_lookup :: "('k \<times> 'v) list \<Rightarrow> 'k \<Rightarrow> 'v option" where
  "g_hash_table_lookup tbl key = map_of tbl key"

text \<open>\<^verbatim>\<open>g_list_sort\<close> is a stable sort by the comparison function: of two elements
  that compare equal the earlier one stays first. Each element is put in front of the
  sorted rest of the list, before the first element it does not compare greater than.\<close>

fun g_list_insert_sorted :: "('a \<Rightarrow> 'a \<Rightarrow> int) \<Rightarrow> 'a \<Rightarrow> 'a list \<Rightarrow> 'a list" where
  "g_list_insert_sorted cmp x [] = [x]"
| "g_list_insert_sorted cmp x (y # ys) =
     (if cmp x y \<le> 0 then x # y # ys else y # g_list_insert_sorted cmp x ys)"

definition g_list_sort :: "'a list \<Rightarrow> ('a \<Rightarrow> 'a \<Rightarrow> int) \<Rightarrow> 'a list" where
  "g_list_sort xs cmp = foldr (g_list_insert_sorted cmp) xs []"

subsection \<open>Data: options, events, environment, state\<close>

text \<open>The two option variables \<^verbatim>\<open>rootdir\<close> and \<^verbatim>\<open>files\<close>; both are NULL
  (\<open>None\<close>) until the option parser sets them.\<close>

record options =
  rootdir :: "string option"
  files :: "string list option"

datatype backend = BACKEND_NONE | BACKEND_NETWORKD | BACKEND_NM

text \<open>What \<^verbatim>\<open>glob\<close> returns: 0 with the matched paths, or one of its error codes.\<close>

datatype glob_result = GLOB_OK "string list" | GLOB_NOSPACE | GLOB_ABORTED | GLOB_NOMATCH

text \<open>How the process ends: \<^verbatim>\<open>return n\<close> from main or \<^verbatim>\<open>exit(n)\<close>, or an
  abort by a failed \<^verbatim>\<open>g_assert\<close> (assertions are compiled in).\<close>

datatype outcome = Exit int | Aborted

text \<open>The calls that leave generate.c, with their arguments and, where main looks at
  it, the value the call returned: the error message of a failed \<^verbatim>\<open>parse_yaml\<close>, the
  boolean of \<^verbatim>\<open>finish_parse\<close> and of the three writers of the service-managed backend,
  and whether \<^verbatim>\<open>fopen\<close> gave a stream. \<open>Stderr\<close> is a \<^verbatim>\<open>g_fprintf(stderr, ...)\<close> of
  generate.c itself. The types
  \<^verbatim>\<open>net_definition\<close>, \<^verbatim>\<open>ip_route\<close> and \<^verbatim>\<open>ip_rule\<close> are declared in parse.h
  and are parameters \<open>'d\<close>, \<open>'r\<close>, \<open>'u\<close> here.\<close>

datatype ('d, 'r, 'u) event =
    Stderr string
  | Parse_yaml string "string option"
  | Finish_parse bool
  | Cleanup_networkd_conf "string option"
  | Cleanup_nm_conf "string option"
  | Write_networkd_conf 'd "string option" bool
  | Write_nm_conf 'd "string option"
  | Write_nm_conf_finish "string option"
  | Write_networkd_global_ip_route 'r "string option" bool
  | Write_networkd_global_ip_rule 'u "string option" bool
  | G_spawn_sync "string list"
  | G_string_free_to_file string "string option" string
  | Enable_networkd string
  | Fopen_w string bool
  | Fclose string

text \<open>The collaborators. \<open>'p\<close> is the state of the parser (the globals of parse.c);
  \<^verbatim>\<open>netdefs\<close>, \<^verbatim>\<open>ip_routing\<close> and \<^verbatim>\<open>ip_rules\<close> are its three global hash
  tables, NULL or the values in the order \<^verbatim>\<open>g_hash_table_foreach\<close> visits them
  (the iterators of generate.c ignore the keys). The option parser returns its error
  message or the two option variables it has set; an option parser that prints the help
  text and exits never returns to main and is no run of this model. \<open>fopen_w path\<close>
  tells whether \<^verbatim>\<open>fopen(path, "w")\<close> returns a stream; \<open>strerror_errno\<close> is the text
  that \<^verbatim>\<open>%m\<close> prints.\<close>

record ('p, 'd, 'r, 'u) env =
  g_option_context_parse :: "string list \<Rightarrow> string + options"
  glob :: "string \<Rightarrow> glob_result"
  parse_yaml :: "string \<Rightarrow> 'p \<Rightarrow> string + 'p"
  finish_parse :: "'p \<Rightarrow> 'p option"
  netdefs :: "'p \<Rightarrow> 'd list option"
  ip_routing :: "'p \<Rightarrow> 'r list option"
  ip_rules :: "'p \<Rightarrow> 'u list option"
  get_global_backend :: "'p \<Rightarrow> backend"
  write_networkd_conf :: "'d \<Rightarrow> string option \<Rightarrow> bool"
  write_networkd_global_ip_route :: "'r \<Rightarrow> string option \<Rightarrow> bool"
  write_networkd_global_ip_rule :: "'u \<Rightarrow> string option \<Rightarrow> bool"
  fopen_w :: "string \<Rightarrow> bool"
  strerror_errno :: string

text \<open>The mutable state: the static flag \<^verbatim>\<open>any_networkd\<close>, the parser's globals, the
  files the program itself tests and creates (path to content), and the trace.\<close>

record ('p, 'd, 'r, 'u) state =
  any_networkd :: bool
  parsed :: 'p
  fs :: "string \<rightharpoonup> string"
  trace :: "('d, 'r, 'u) event list"

definition emit :: "('d, 'r, 'u) event \<Rightarrow> ('p, 'd, 'r, 'u) state \<Rightarrow> ('p, 'd, 'r, 'u) state" where
  "emit e s = s\<lparr>trace := trace s @ [e]\<rparr>"

subsection \<open>The static helpers of generate.c\<close>

definition reload_udevd :: "('p, 'd, 'r, 'u) state \<Rightarrow> ('p, 'd, 'r, 'u) state" where
  "reload_udevd s = emit (G_spawn_sync [''/sbin/udevadm'', ''control'', ''--reload'']) s"

definition routing_iterator ::
  "('p, 'd, 'r, 'u) env \<Rightarrow> 'r \<Rightarrow> string option \<Rightarrow> ('p, 'd, 'r, 'u) state \<Rightarrow> ('p, 'd, 'r, 'u) state" where
  "routing_iterator env v user_data s =
     (let r = write_networkd_global_ip_route env v user_data;
          s1 = emit (Write_networkd_global_ip_route v user_data r) s
      in if r then s1\<lparr>any_networkd := True\<rparr> else s1)"

definition rule_iterator ::
  "('p, 'd, 'r, 'u) env \<Rightarrow> 'u \<Rightarrow> string option \<Rightarrow> ('p, 'd, 'r, 'u) state \<Rightarrow> ('p, 'd, 'r, 'u) state" where
  "rule_iterator env v user_data s =
     (let r = write_networkd_global_ip_rule env v user_data;
          s1 = emit (Write_networkd_global_ip_rule v user_data r) s
      in if r then s1\<lparr>any_networkd := True\<rparr> else s1)"

text \<open>\<^verbatim>\<open>g_hash_table_foreach\<close> calls the function once per entry; on a NULL table it
  returns at once (\<^verbatim>\<open>g_return_if_fail\<close>).\<close>

definition g_hash_table_foreach ::
  "'v list option \<Rightarrow> ('v \<Rightarrow> 'a \<Rightarrow> 's \<Rightarrow> 's) \<Rightarrow> 'a \<Rightarrow> 's \<Rightarrow> 's" where
  "g_hash_table_foreach hash_table func user_data s =
     (case hash_table of
        None \<Rightarrow> s
      | Some entries \<Rightarrow> fold (\<lambda>v. func v user_data) entries s)"

definition write_global_routing ::
  "('p, 'd, 'r, 'u) env \<Rightarrow> options \<Rightarrow> 'r list option \<Rightarrow> 'u list option \<Rightarrow>
     ('p, 'd, 'r, 'u) state \<Rightarrow> ('p, 'd, 'r, 'u) state" where
  "write_global_routing env opts routing rules s =
     g_hash_table_foreach rules (rule_iterator env) (rootdir opts)
       (g_hash_table_foreach routing (routing_iterator env) (rootdir opts) s)"

definition nd_iterator ::
  "('p, 'd, 'r, 'u) env \<Rightarrow> 'd \<Rightarrow> string option \<Rightarrow> ('p, 'd, 'r, 'u) state \<Rightarrow> ('p, 'd, 'r, 'u) state" where
  "nd_iterator env v user_data s =
     (let r = write_networkd_conf env v user_data;
          s1 = emit (Write_networkd_conf v user_data r) s;
          s2 = (if r then s1\<lparr>any_networkd := True\<rparr> else s1)
      in emit (Write_nm_conf v user_data) s2)"

text \<open>\<^verbatim>\<open>process_input_file\<close>: a parse error is printed and ends the process with
  \<^verbatim>\<open>exit(1)\<close> (\<open>Inl\<close>); otherwise the run goes on with the parser's new state.\<close>

definition process_input_file ::
  "('p, 'd, 'r, 'u) env \<Rightarrow> string \<Rightarrow> ('p, 'd, 'r, 'u) state \<Rightarrow>
     (outcome \<times> ('p, 'd, 'r, 'u) state) + ('p, 'd, 'r, 'u) state" where
  "process_input_file env f s =
     (case parse_yaml env f (parsed s) of
        Inl message \<Rightarrow>
          Inl (Exit 1, emit (Stderr (message @ ''\<newline>'')) (emit (Parse_yaml f (Some message)) s))
      | Inr p \<Rightarrow> Inr ((emit (Parse_yaml f None) s)\<lparr>parsed := p\<rparr>))"

subsection \<open>main\<close>

definition called_as_generator :: "string \<Rightarrow> bool" where
  "called_as_generator argv0 = (strstr argv0 ''systemd/system-generators/'' \<noteq> None)"

text \<open>At program start \<^verbatim>\<open>any_networkd\<close> is FALSE and nothing has been called.\<close>

definition initial_state :: "'p \<Rightarrow> (string \<rightharpoonup> string) \<Rightarrow> ('p, 'd, 'r, 'u) state" where
  "initial_state p0 fs0 = \<lparr>any_networkd = False, parsed = p0, fs = fs0, trace = []\<rparr>"

text \<open>Lines 115-125, taken when called as generator: the usage check and the stamp
  test. \<^verbatim>\<open>files[0] == NULL\<close> holds exactly for an empty array. The result is the
  pair of \<^verbatim>\<open>files[0]\<close> and \<^verbatim>\<open>generator_run_stamp\<close>, or the early return.\<close>

definition generator_check ::
  "string \<Rightarrow> options \<Rightarrow> ('p, 'd, 'r, 'u) state \<Rightarrow>
     (outcome \<times> ('p, 'd, 'r, 'u) state) + (string \<times> string)" where
  "generator_check argv0 opts s =
     (let usage = Stderr (argv0 @ '' can not be called directly, use 'netplan generate'.'')
      in case files opts of
           None \<Rightarrow> Inl (Exit 1, emit usage s)
         | Some [] \<Rightarrow> Inl (Exit 1, emit usage s)
         | Some (files0 # rest) \<Rightarrow>
             if length (files0 # rest) \<noteq> 3 then Inl (Exit 1, emit usage s)
             else
               let generator_run_stamp = g_build_path [files0, ''netplan.stamp'']
               in if fs s generator_run_stamp \<noteq> None
                  then Inl (Exit 0,
                         emit (Stderr (''netplan generate already ran, remove '' @
                                 generator_run_stamp @ '' to force re-run\<newline>'')) s)
                  else Inr (files0, generator_run_stamp))"

text \<open>Lines 129-130: the files given on the command line, in the order given.\<close>

fun process_files ::
  "('p, 'd, 'r, 'u) env \<Rightarrow> string list \<Rightarrow> ('p, 'd, 'r, 'u) state \<Rightarrow>
     (outcome \<times> ('p, 'd, 'r, 'u) state) + ('p, 'd, 'r, 'u) state" where
  "process_files env [] s = Inr s"
| "process_files env (f # rest) s =
     (case process_input_file env f s of
        Inl stop \<Rightarrow> Inl stop
      | Inr s' \<Rightarrow> process_files env rest s')"

text \<open>Lines 170-171: one lookup and one \<^verbatim>\<open>process_input_file\<close> per sorted key. A
  key without an entry would hand NULL to the parser; the keys are those of the table,
  so that branch is never taken (lemma \<open>process_config_keys_files\<close> below).\<close>

fun process_config_keys ::
  "('p, 'd, 'r, 'u) env \<Rightarrow> (string \<times> string) list \<Rightarrow> string list \<Rightarrow> ('p, 'd, 'r, 'u) state \<Rightarrow>
     (outcome \<times> ('p, 'd, 'r, 'u) state) + ('p, 'd, 'r, 'u) state" where
  "process_config_keys env configs [] s = Inr s"
| "process_config_keys env configs (k # rest) s =
     (case g_hash_table_lookup configs k of
        None \<Rightarrow> Inl (Aborted, s)
      | Some f \<Rightarrow>
          (case process_input_file env f s of
             Inl stop \<Rightarrow> Inl stop
           | Inr s' \<Rightarrow> process_config_keys env configs rest s'))"

definition glob_failed :: "glob_result \<Rightarrow> bool" where
  "glob_failed rc = (case rc of GLOB_OK paths \<Rightarrow> False | GLOB_NOMATCH \<Rightarrow> False | _ \<Rightarrow> True)"

definition gl_pathv :: "glob_result \<Rightarrow> string list" where
  "gl_pathv rc = (case rc of GLOB_OK paths \<Rightarrow> paths | _ \<Rightarrow> [])"

definition glob_pattern :: "options \<Rightarrow> string \<Rightarrow> string" where
  "glob_pattern opts dir =
     g_strjoin_NULL [case rootdir opts of None \<Rightarrow> [] | Some r \<Rightarrow> r, ''/'', dir]"

text \<open>Lines 165-168: the table from basename to path, filled in the order of
  \<^verbatim>\<open>gl_pathv\<close>, and its keys sorted with \<^verbatim>\<open>strcmp\<close>.\<close>

definition insert_configs :: "string list \<Rightarrow> (string \<times> string) list" where
  "insert_configs pathv =
     fold (\<lambda>path configs. g_hash_table_insert configs (g_path_get_basename path) path) pathv []"

definition sorted_config_keys :: "(string \<times> string) list \<Rightarrow> string list" where
  "sorted_config_keys configs = g_list_sort (g_hash_table_get_keys configs) strcmp"

text \<open>Lines 138-171: the three globs (lib, then etc and run appended), the table, the
  sorted keys and the ingestion loop.\<close>

definition process_default_configs ::
  "('p, 'd, 'r, 'u) env \<Rightarrow> options \<Rightarrow> ('p, 'd, 'r, 'u) state \<Rightarrow>
     (outcome \<times> ('p, 'd, 'r, 'u) state) + ('p, 'd, 'r, 'u) state" where
  "process_default_configs env opts s =
     (let glob_etc = glob_pattern opts ''/etc/netplan/*.yaml'';
          glob_run = glob_pattern opts ''/run/netplan/*.yaml'';
          glob_lib = glob_pattern opts ''/lib/netplan/*.yaml'';
          failed = (\<lambda>pat. Inl (Exit 1,
                      emit (Stderr (''failed to glob for '' @ pat @ '': '' @
                              strerror_errno env @ ''\<newline>'')) s));
          rc_lib = glob env glob_lib
      in if glob_failed rc_lib then failed glob_lib
         else
           let rc_etc = glob env glob_etc
           in if glob_failed rc_etc then failed glob_etc
              else
                let rc_run = glob env glob_run
                in if glob_failed rc_run then failed glob_run
                   else
                     let configs = insert_configs (gl_pathv rc_lib @ gl_pathv rc_etc @ gl_pathv rc_run);
                         config_keys = sorted_config_keys configs
                     in process_config_keys env configs config_keys s)"

text \<open>Lines 181-193: the block guarded by \<^verbatim>\<open>if (netdefs)\<close>.\<close>

definition write_output :: "('p, 'd, 'r, 'u) env \<Rightarrow> options \<Rightarrow> ('p, 'd, 'r, 'u) state \<Rightarrow> ('p, 'd, 'r, 'u) state" where
  "write_output env opts s =
     (case netdefs env (parsed s) of
        None \<Rightarrow> s
      | Some defs \<Rightarrow>
          let s1 = g_hash_table_foreach (Some defs) (nd_iterator env) (rootdir opts) s;
              s2 = emit (Write_nm_conf_finish (rootdir opts)) s1;
              s3 = write_global_routing env opts (ip_routing env (parsed s2)) (ip_rules env (parsed s2)) s2
          in reload_udevd s3)"

text \<open>Lines 174-212, after all input has been read. \<open>generator\<close> is \<open>None\<close> when the
  program was not called as generator, else \<^verbatim>\<open>files[0]\<close> and the stamp path. A
  successful \<^verbatim>\<open>fopen(path, "w")\<close> leaves an empty file at the path.\<close>

definition generate ::
  "('p, 'd, 'r, 'u) env \<Rightarrow> options \<Rightarrow> (string \<times> string) option \<Rightarrow> ('p, 'd, 'r, 'u) state \<Rightarrow>
     outcome \<times> ('p, 'd, 'r, 'u) state" where
  "generate env opts generator s =
     (case finish_parse env (parsed s) of
        None \<Rightarrow> (Aborted, emit (Finish_parse False) s)
      | Some p \<Rightarrow>
          let s1 = emit (Finish_parse True) s;
              s2 = emit (Cleanup_networkd_conf (rootdir opts)) (s1\<lparr>parsed := p\<rparr>);
              s3 = emit (Cleanup_nm_conf (rootdir opts)) s2;
              s4 = write_output env opts s3;
              s5 = (if get_global_backend env (parsed s4) = BACKEND_NM
                    then emit (G_string_free_to_file [] (rootdir opts)
                                 ''/run/NetworkManager/conf.d/10-globally-managed-devices.conf'') s4
                    else s4)
          in case generator of
               None \<Rightarrow> (Exit 0, s5)
             | Some (files0, generator_run_stamp) \<Rightarrow>
                 let s6 = (if any_networkd s5 then emit (Enable_networkd files0) s5 else s5)
                 in if fopen_w env generator_run_stamp
                    then
                      let s7 = emit (Fopen_w generator_run_stamp True) s6
                      in (Exit 0, emit (Fclose generator_run_stamp)
                                    (s7\<lparr>fs := (fs s7)(generator_run_stamp := Some [])\<rparr>))
                    else (Aborted, emit (Fopen_w generator_run_stamp False) s6))"

text \<open>Lines 127-131: which input is read. Explicit files are read only when the program
  was not called as generator.\<close>

definition read_input ::
  "('p, 'd, 'r, 'u) env \<Rightarrow> bool \<Rightarrow> options \<Rightarrow> ('p, 'd, 'r, 'u) state \<Rightarrow>
     (outcome \<times> ('p, 'd, 'r, 'u) state) + ('p, 'd, 'r, 'u) state" where
  "read_input env gen opts s =
     (case files opts of
        Some fl \<Rightarrow> if \<not> gen then process_files env fl s else process_default_configs env opts s
      | None \<Rightarrow> process_default_configs env opts s)"

text \<open>\<^verbatim>\<open>main\<close>: \<open>p0\<close> is the parser's state at program start, \<open>argv0\<close> the program
  name, \<open>args\<close> the remaining arguments and \<open>fs0\<close> the files that exist.\<close>

definition main ::
  "('p, 'd, 'r, 'u) env \<Rightarrow> 'p \<Rightarrow> string \<Rightarrow> string list \<Rightarrow> (string \<rightharpoonup> string) \<Rightarrow>
     outcome \<times> ('p, 'd, 'r, 'u) state" where
  "main env p0 argv0 args fs0 =
     (let s0 = initial_state p0 fs0;
          gen = called_as_generator argv0
      in case g_option_context_parse env args of
           Inl message \<Rightarrow>
             (Exit 1, emit (Stderr (''failed to parse options: '' @ message @ ''\<newline>'')) s0)
         | Inr opts \<Rightarrow>
             (case (if gen then map_sum id Some (generator_check argv0 opts s0) else Inr None) of
                Inl stop \<Rightarrow> stop
              | Inr generator \<Rightarrow>
                  (case read_input env gen opts s0 of
                     Inl stop \<Rightarrow> stop
                   | Inr s1 \<Rightarrow> generate env opts generator s1)))"

subsection \<open>Reading a trace\<close>

text \<open>The paths handed to \<^verbatim>\<open>parse_yaml\<close>, in call order.\<close>

fun parse_call :: "('d, 'r, 'u) event \<Rightarrow> string option" where
  "parse_call (Parse_yaml f r) = Some f"
| "parse_call _ = None"

definition parse_calls :: "('d, 'r, 'u) event list \<Rightarrow> string list" where
  "parse_calls tr = List.map_filter parse_call tr"

text \<open>The booleans returned by the writers of the service-managed backend.\<close>

fun managed_result :: "('d, 'r, 'u) event \<Rightarrow> bool option" where
  "managed_result (Write_networkd_conf d root b) = Some b"
| "managed_result (Write_networkd_global_ip_route r root b) = Some b"
| "managed_result (Write_networkd_global_ip_rule u root b) = Some b"
| "managed_result _ = None"

definition managed_results :: "('d, 'r, 'u) event list \<Rightarrow> bool list" where
  "managed_results tr = List.map_filter managed_result tr"

text \<open>The calls of the two global writers, with argument and result.\<close>

fun route_write :: "('d, 'r, 'u) event \<Rightarrow> ('r \<times> string option \<times> bool) option" where
  "route_write (Write_networkd_global_ip_route r root b) = Some (r, root, b)"
| "route_write _ = None"

fun rule_write :: "('d, 'r, 'u) event \<Rightarrow> ('u \<times> string option \<times> bool) option" where
  "rule_write (Write_networkd_global_ip_rule u root b) = Some (u, root, b)"
| "rule_write _ = None"

definition route_writes :: "('d, 'r, 'u) event list \<Rightarrow> ('r \<times> string option \<times> bool) list" where
  "route_writes tr = List.map_filter route_write tr"

definition rule_writes :: "('d, 'r, 'u) event list \<Rightarrow> ('u \<times> string option \<times> bool) list" where
  "rule_writes tr = List.map_filter rule_write tr"

text \<open>Calls that write backend output, and calls that remove it.\<close>

fun backend_write :: "('d, 'r, 'u) event \<Rightarrow> bool" where
  "backend_write (Write_networkd_conf d root b) = True"
| "backend_write (Write_nm_conf d root) = True"
| "backend_write (Write_nm_conf_finish root) = True"
| "backend_write (Write_networkd_global_ip_route r root b) = True"
| "backend_write (Write_networkd_global_ip_rule u root b) = True"
| "backend_write _ = False"

fun cleanup_call :: "('d, 'r, 'u) event \<Rightarrow> bool" where
  "cleanup_call (Cleanup_networkd_conf root) = True"
| "cleanup_call (Cleanup_nm_conf root) = True"
| "cleanup_call _ = False"

definition udevadm_reload :: "('d, 'r, 'u) event" where
  "udevadm_reload = G_spawn_sync [''/sbin/udevadm'', ''control'', ''--reload'']"

text \<open>The entries of a table that may be NULL.\<close>

definition entries :: "'v list option \<Rightarrow> 'v list" where
  "entries hash_table = (case hash_table of None \<Rightarrow> [] | Some vs \<Rightarrow> vs)"

text \<open>The three glob results of default discovery, by tier, and the paths the loop of
  lines 170-171 looks up: one per sorted key.\<close>

definition lib_paths :: "('p, 'd, 'r, 'u) env \<Rightarrow> options \<Rightarrow> string list" where
  "lib_paths env opts = gl_pathv (glob env (glob_pattern opts ''/lib/netplan/*.yaml''))"

definition etc_paths :: "('p, 'd, 'r, 'u) env \<Rightarrow> options \<Rightarrow> string list" where
  "etc_paths env opts = gl_pathv (glob env (glob_pattern opts ''/etc/netplan/*.yaml''))"

definition run_paths :: "('p, 'd, 'r, 'u) env \<Rightarrow> options \<Rightarrow> string list" where
  "run_paths env opts = gl_pathv (glob env (glob_pattern opts ''/run/netplan/*.yaml''))"

definition config_files :: "(string \<times> string) list \<Rightarrow> string list" where
  "config_files configs =
     List.map_filter (g_hash_table_lookup configs) (sorted_config_keys configs)"

text \<open>Default discovery is the \<^verbatim>\<open>else\<close> branch of line 128: taken when the program
  was called as generator or no file was given.\<close>

definition default_mode :: "string \<Rightarrow> options \<Rightarrow> bool" where
  "default_mode argv0 opts = (called_as_generator argv0 \<or> files opts = None)"

text \<open>The paths default discovery hands to the parser when every parse succeeds, and
  the input of a run in either mode (lines 128-131): the files of the command line only
  when there are some and the program was not called as generator.\<close>

definition default_files :: "('p, 'd, 'r, 'u) env \<Rightarrow> options \<Rightarrow> string list" where
  "default_files env opts =
     config_files (insert_configs (lib_paths env opts @ etc_paths env opts @ run_paths env opts))"

definition input_files :: "('p, 'd, 'r, 'u) env \<Rightarrow> string \<Rightarrow> options \<Rightarrow> string list" where
  "input_files env argv0 opts =
     (case files opts of
        Some fl \<Rightarrow> if called_as_generator argv0 then default_files env opts else fl
      | None \<Rightarrow> default_files env opts)"

subsection \<open>Conditions on the input of a run\<close>

text \<open>Conditions under which a run gets through its input, stated on what the run is given
  and not on what it does. \<open>generation_starts\<close>: the program is not called as generator, or
  it is called with three directories and the stamp file is absent. \<open>globs_succeed\<close>: none
  of the three globs fails (finding nothing is no failure). \<open>parse_all\<close>: the parser's
  state after it has read the files in order, when it accepts them all.
  \<open>input_accepted\<close>: it accepts them all and \<^verbatim>\<open>finish_parse\<close> succeeds on the
  result.\<close>

definition generation_starts :: "string \<Rightarrow> options \<Rightarrow> (string \<rightharpoonup> string) \<Rightarrow> bool" where
  "generation_starts argv0 opts fs0 =
     (if called_as_generator argv0
      then (case files opts of
              Some [dir, early, late] \<Rightarrow> fs0 (g_build_path [dir, ''netplan.stamp'']) = None
            | _ \<Rightarrow> False)
      else True)"

definition globs_succeed :: "('p, 'd, 'r, 'u) env \<Rightarrow> options \<Rightarrow> bool" where
  "globs_succeed env opts =
     (\<not> glob_failed (glob env (glob_pattern opts ''/lib/netplan/*.yaml'')) \<and>
      \<not> glob_failed (glob env (glob_pattern opts ''/etc/netplan/*.yaml'')) \<and>
      \<not> glob_failed (glob env (glob_pattern opts ''/run/netplan/*.yaml'')))"

fun parse_all :: "('p, 'd, 'r, 'u) env \<Rightarrow> string list \<Rightarrow> 'p \<Rightarrow> 'p option" where
  "parse_all env [] p = Some p"
| "parse_all env (f # rest) p =
     (case parse_yaml env f p of
        Inl message \<Rightarrow> None
      | Inr p' \<Rightarrow> parse_all env rest p')"

definition input_accepted :: "('p, 'd, 'r, 'u) env \<Rightarrow> string list \<Rightarrow> 'p \<Rightarrow> bool" where
  "input_accepted env fl p0 =
     (case parse_all env fl p0 of
        None \<Rightarrow> False
      | Some p \<Rightarrow> finish_parse env p \<noteq> None)"

subsection \<open>The events of each phase\<close>

text \<open>The events one iterator call appends, and those of the three blocks of main after
  the cleanup: the block under \<^verbatim>\<open>if (netdefs)\<close>, the policy file of the integration
  backend, and the generator's last steps. They are used to state what the trace of a run
  looks like (lemma \<open>main_shape\<close>).\<close>

definition route_event :: "('p, 'd, 'r, 'u) env \<Rightarrow> string option \<Rightarrow> 'r \<Rightarrow> ('d, 'r, 'u) event" where
  "route_event env root r =
     Write_networkd_global_ip_route r root (write_networkd_global_ip_route env r root)"

definition rule_event :: "('p, 'd, 'r, 'u) env \<Rightarrow> string option \<Rightarrow> 'u \<Rightarrow> ('d, 'r, 'u) event" where
  "rule_event env root u =
     Write_networkd_global_ip_rule u root (write_networkd_global_ip_rule env u root)"

definition netdef_events :: "('p, 'd, 'r, 'u) env \<Rightarrow> string option \<Rightarrow> 'd \<Rightarrow> ('d, 'r, 'u) event list" where
  "netdef_events env root d =
     [Write_networkd_conf d root (write_networkd_conf env d root), Write_nm_conf d root]"

definition output_events :: "('p, 'd, 'r, 'u) env \<Rightarrow> string option \<Rightarrow> 'p \<Rightarrow> ('d, 'r, 'u) event list" where
  "output_events env root p =
     (case netdefs env p of
        None \<Rightarrow> []
      | Some defs \<Rightarrow>
          concat (map (netdef_events env root) defs) @ [Write_nm_conf_finish root] @
          map (route_event env root) (entries (ip_routing env p)) @
          map (rule_event env root) (entries (ip_rules env p)) @ [udevadm_reload])"

definition policy_events :: "('p, 'd, 'r, 'u) env \<Rightarrow> string option \<Rightarrow> 'p \<Rightarrow> ('d, 'r, 'u) event list" where
  "policy_events env root p =
     (if get_global_backend env p = BACKEND_NM
      then [G_string_free_to_file [] root ''/run/NetworkManager/conf.d/10-globally-managed-devices.conf'']
      else [])"

definition finish_events ::
  "('p, 'd, 'r, 'u) env \<Rightarrow> (string \<times> string) option \<Rightarrow> bool \<Rightarrow> ('d, 'r, 'u) event list" where
  "finish_events env generator any =
     (case generator of
        None \<Rightarrow> []
      | Some (files0, stamp) \<Rightarrow>
          (if any then [Enable_networkd files0] else []) @
          (if fopen_w env stamp then [Fopen_w stamp True, Fclose stamp] else [Fopen_w stamp False]))"

subsection \<open>Example environments\<close>

text \<open>A parser that records the paths it has read and rejects \<^verbatim>\<open>bad.yaml\<close>; two
  network definitions and one global route once anything has been read, no rule table;
  the writers of the service-managed backend produce output for definition 1 and for
  the route. The option parser takes every argument as a positional one.\<close>

definition example_glob :: "string \<Rightarrow> glob_result" where
  "example_glob pattern =
     (if pattern = ''//lib/netplan/*.yaml''
      then GLOB_OK [''//lib/netplan/10-a.yaml'', ''//lib/netplan/20-b.yaml'']
      else if pattern = ''//etc/netplan/*.yaml''
      then GLOB_OK [''//etc/netplan/10-a.yaml'']
      else if pattern = ''//run/netplan/*.yaml''
      then GLOB_OK [''//run/netplan/05-c.yaml'', ''//run/netplan/10-a.yaml'']
      else GLOB_NOMATCH)"

definition example_env :: "(string list, nat, nat, nat) env" where
  "example_env =
     \<lparr>g_option_context_parse =
        (\<lambda>args. Inr \<lparr>rootdir = None, files = (if args = [] then None else Some args)\<rparr>),
      glob = example_glob,
      parse_yaml = (\<lambda>f p. if f = ''bad.yaml'' then Inl ''bad.yaml: syntax error'' else Inr (p @ [f])),
      finish_parse = Some,
      netdefs = (\<lambda>p. if p = [] then None else Some [1, 2]),
      ip_routing = (\<lambda>p. if p = [] then None else Some [7]),
      ip_rules = (\<lambda>p. None),
      get_global_backend = (\<lambda>p. BACKEND_NM),
      write_networkd_conf = (\<lambda>d root. d = 1),
      write_networkd_global_ip_route = (\<lambda>r root. True),
      write_networkd_global_ip_rule = (\<lambda>u root. True),
      fopen_w = (\<lambda>path. True),
      strerror_errno = ''Permission denied''\<rparr>"

text \<open>The same with every definition rendered by the integration backend: no writer of
  the service-managed backend produces output.\<close>

definition example_env_nm :: "(string list, nat, nat, nat) env" where
  "example_env_nm =
     example_env\<lparr>write_networkd_conf := (\<lambda>d root. False),
                 write_networkd_global_ip_route := (\<lambda>r root. False)\<rparr>"

text \<open>The same for configuration that declares the global route and no network
  definition: the table of network definitions stays NULL.\<close>

definition example_env_routes_only :: "(string list, nat, nat, nat) env" where
  "example_env_routes_only = example_env\<lparr>netdefs := (\<lambda>p. None)\<rparr>"

definition generator_argv0 :: string where
  "generator_argv0 = ''/lib/systemd/system-generators/netplan''"

definition generator_args :: "string list" where
  "generator_args = [''/run/systemd/generator'', ''/run/systemd/generator.early'',
                     ''/run/systemd/generator.late'']"

text \<open>An effect of the calls on the set of files of the service-managed backend, for the
  example environment: its cleanup removes them all, its writer adds the file of the
  definition when it produces output.\<close>

definition example_effect :: "(nat, nat, nat) event \<Rightarrow> string set \<Rightarrow> string set" where
  "example_effect e w =
     (case e of
        Cleanup_networkd_conf root \<Rightarrow> {}
      | Write_networkd_conf d root b \<Rightarrow>
          (if b then insert (if d = 1 then ''10-netplan-eth1.network'' else ''10-netplan-eth2.network'') w
           else w)
      | _ \<Rightarrow> w)"

section \<open>Lemmas\<close>

subsection \<open>Fields of the state, projections of a trace\<close>

lemma emit_fields [simp]:
  "trace (emit e s) = trace s @ [e]"
  "any_networkd (emit e s) = any_networkd s"
  "parsed (emit e s) = parsed s"
  "fs (emit e s) = fs s"
  by (simp_all add: emit_def)

lemma map_filter_append: "List.map_filter f (xs @ ys) = List.map_filter f xs @ List.map_filter f ys"
  by (simp add: List.map_filter_def)

lemma parse_calls_simps [simp]:
  "parse_calls [] = []"
  "parse_calls (xs @ ys) = parse_calls xs @ parse_calls ys"
  "parse_calls (e # xs) = (case parse_call e of None \<Rightarrow> parse_calls xs | Some f \<Rightarrow> f # parse_calls xs)"
  by (simp_all add: parse_calls_def List.map_filter_def split: option.split)

lemma managed_results_simps [simp]:
  "managed_results [] = []"
  "managed_results (xs @ ys) = managed_results xs @ managed_results ys"
  "managed_results (e # xs) = (case managed_result e of None \<Rightarrow> managed_results xs | Some f \<Rightarrow> f # managed_results xs)"
  by (simp_all add: managed_results_def List.map_filter_def split: option.split)

lemma route_writes_simps [simp]:
  "route_writes [] = []"
  "route_writes (xs @ ys) = route_writes xs @ route_writes ys"
  "route_writes (e # xs) = (case route_write e of None \<Rightarrow> route_writes xs | Some f \<Rightarrow> f # route_writes xs)"
  by (simp_all add: route_writes_def List.map_filter_def split: option.split)

lemma rule_writes_simps [simp]:
  "rule_writes [] = []"
  "rule_writes (xs @ ys) = rule_writes xs @ rule_writes ys"
  "rule_writes (e # xs) = (case rule_write e of None \<Rightarrow> rule_writes xs | Some f \<Rightarrow> f # rule_writes xs)"
  by (simp_all add: rule_writes_def List.map_filter_def split: option.split)

subsection \<open>The iterators and the hash table loops\<close>

lemma routing_iterator_fields:
  "trace (routing_iterator env v ud s) = trace s @ [route_event env ud v]"
  "any_networkd (routing_iterator env v ud s) = (any_networkd s \<or> write_networkd_global_ip_route env v ud)"
  "parsed (routing_iterator env v ud s) = parsed s"
  "fs (routing_iterator env v ud s) = fs s"
  by (simp_all add: routing_iterator_def route_event_def Let_def)

lemma rule_iterator_fields:
  "trace (rule_iterator env v ud s) = trace s @ [rule_event env ud v]"
  "any_networkd (rule_iterator env v ud s) = (any_networkd s \<or> write_networkd_global_ip_rule env v ud)"
  "parsed (rule_iterator env v ud s) = parsed s"
  "fs (rule_iterator env v ud s) = fs s"
  by (simp_all add: rule_iterator_def rule_event_def Let_def)

lemma nd_iterator_fields:
  "trace (nd_iterator env v ud s) = trace s @ netdef_events env ud v"
  "any_networkd (nd_iterator env v ud s) = (any_networkd s \<or> write_networkd_conf env v ud)"
  "parsed (nd_iterator env v ud s) = parsed s"
  "fs (nd_iterator env v ud s) = fs s"
  by (simp_all add: nd_iterator_def netdef_events_def Let_def)

lemma fold_routing_iterator:
  "trace (fold (\<lambda>v. routing_iterator env v ud) vs s) = trace s @ map (route_event env ud) vs \<and>
   any_networkd (fold (\<lambda>v. routing_iterator env v ud) vs s) = (any_networkd s \<or> (\<exists>v \<in> set vs. write_networkd_global_ip_route env v ud)) \<and>
   parsed (fold (\<lambda>v. routing_iterator env v ud) vs s) = parsed s \<and>
   fs (fold (\<lambda>v. routing_iterator env v ud) vs s) = fs s"
  by (induction vs arbitrary: s) (auto simp: routing_iterator_fields)

lemma fold_rule_iterator:
  "trace (fold (\<lambda>v. rule_iterator env v ud) vs s) = trace s @ map (rule_event env ud) vs \<and>
   any_networkd (fold (\<lambda>v. rule_iterator env v ud) vs s) = (any_networkd s \<or> (\<exists>v \<in> set vs. write_networkd_global_ip_rule env v ud)) \<and>
   parsed (fold (\<lambda>v. rule_iterator env v ud) vs s) = parsed s \<and>
   fs (fold (\<lambda>v. rule_iterator env v ud) vs s) = fs s"
  by (induction vs arbitrary: s) (auto simp: rule_iterator_fields)

lemma fold_nd_iterator:
  "trace (fold (\<lambda>v. nd_iterator env v ud) vs s) = trace s @ concat (map (netdef_events env ud) vs) \<and>
   any_networkd (fold (\<lambda>v. nd_iterator env v ud) vs s) = (any_networkd s \<or> (\<exists>v \<in> set vs. write_networkd_conf env v ud)) \<and>
   parsed (fold (\<lambda>v. nd_iterator env v ud) vs s) = parsed s \<and>
   fs (fold (\<lambda>v. nd_iterator env v ud) vs s) = fs s"
  by (induction vs arbitrary: s) (auto simp: nd_iterator_fields)

subsection \<open>strcmp is a total order and the sort sorts by it\<close>

lemma strcmp_antisym: "strcmp b a = - strcmp a b"
  by (induction a b rule: strcmp.induct) auto

lemma strcmp_eq_0_iff: "strcmp a b = 0 \<longleftrightarrow> a = b"
  by (induction a b rule: strcmp.induct) auto

lemma strcmp_refl [simp]: "strcmp a a = 0"
  by (simp add: strcmp_eq_0_iff)

lemma strcmp_trans: "strcmp a b \<le> 0 \<Longrightarrow> strcmp b c \<le> 0 \<Longrightarrow> strcmp a c \<le> 0"
proof (induction a b arbitrary: c rule: strcmp.induct)
  case 1
  then show ?case by simp
next
  case (2 b bs)
  then show ?case by (cases c) auto
next
  case (3 a as)
  then show ?case by simp
next
  case (4 a as b bs)
  show ?case
  proof (cases c)
    case Nil
    with 4 show ?thesis by simp
  next
    case (Cons x xs)
    with 4 show ?thesis
      by (auto split: if_splits)
  qed
qed

lemma strcmp_total: "\<not> strcmp a b \<le> 0 \<Longrightarrow> strcmp b a \<le> 0"
  using strcmp_antisym [of a b] by simp

lemma set_g_list_insert_sorted [simp]:
  "set (g_list_insert_sorted cmp x ys) = insert x (set ys)"
  by (induction ys) auto

lemma sorted_g_list_insert_sorted:
  "sorted_wrt (\<lambda>a b. strcmp a b \<le> 0) ys \<Longrightarrow>
   sorted_wrt (\<lambda>a b. strcmp a b \<le> 0) (g_list_insert_sorted strcmp x ys)"
proof (induction ys)
  case Nil
  then show ?case by simp
next
  case (Cons y ys)
  show ?case
  proof (cases "strcmp x y \<le> 0")
    case True
    have "strcmp x z \<le> 0" if "z \<in> set ys" for z
      using Cons.prems that True strcmp_trans [of x y z] by auto
    with True Cons.prems show ?thesis by auto
  next
    case False
    then have "strcmp y x \<le> 0" by (rule strcmp_total)
    with False Cons show ?thesis by auto
  qed
qed

lemma distinct_g_list_insert_sorted:
  "distinct ys \<Longrightarrow> x \<notin> set ys \<Longrightarrow> distinct (g_list_insert_sorted cmp x ys)"
  by (induction ys) auto

lemma set_g_list_sort [simp]: "set (g_list_sort xs cmp) = set xs"
  by (induction xs) (auto simp: g_list_sort_def)

lemma g_list_sort_Cons: "g_list_sort (x # xs) cmp = g_list_insert_sorted cmp x (g_list_sort xs cmp)"
  by (simp add: g_list_sort_def)

lemma distinct_g_list_sort: "distinct xs \<Longrightarrow> distinct (g_list_sort xs cmp)"
  by (induction xs) (auto simp: g_list_sort_Cons distinct_g_list_insert_sorted, simp add: g_list_sort_def)

lemma sorted_g_list_sort: "sorted_wrt (\<lambda>a b. strcmp a b \<le> 0) (g_list_sort xs strcmp)"
  by (induction xs) (auto simp: g_list_sort_Cons sorted_g_list_insert_sorted, simp add: g_list_sort_def)

lemma strictly_sorted_g_list_sort:
  assumes "distinct xs"
  shows "sorted_wrt (\<lambda>a b. strcmp a b < 0) (g_list_sort xs strcmp)"
proof -
  have d: "distinct (g_list_sort xs strcmp)" using assms by (rule distinct_g_list_sort)
  have s: "sorted_wrt (\<lambda>a b. strcmp a b \<le> 0) (g_list_sort xs strcmp)" by (rule sorted_g_list_sort)
  have "sorted_wrt (\<lambda>a b. strcmp a b \<le> 0 \<and> a \<noteq> b) (g_list_sort xs strcmp)"
    using d s by (induction "g_list_sort xs strcmp") (auto simp: sorted_wrt_iff_nth_less distinct_conv_nth)
  then show ?thesis
    by (rule sorted_wrt_mono_rel [rotated]) (auto simp: strcmp_eq_0_iff order_less_le)
qed

text \<open>The order in which the hash table hands out its keys does not matter: two lists of
  the same distinct keys sort to the same list.\<close>

lemma strictly_sorted_unique:
  assumes "sorted_wrt (\<lambda>a b. strcmp a b < 0) xs" "sorted_wrt (\<lambda>a b. strcmp a b < 0) ys"
      and "set xs = set ys"
  shows "xs = ys"
  using assms
proof (induction xs arbitrary: ys)
  case Nil
  then show ?case by simp
next
  case (Cons x xs)
  then obtain y ys' where ys: "ys = y # ys'" by (cases ys) auto
  have irr: "\<not> strcmp a a < 0" for a by simp
  have asym: "strcmp a b < 0 \<Longrightarrow> \<not> strcmp b a < 0" for a b
    using strcmp_antisym [of a b] by simp
  have xy: "x = y"
  proof (rule ccontr)
    assume ne: "x \<noteq> y"
    with Cons.prems(3) ys have "x \<in> set ys'" "y \<in> set xs" by auto
    with Cons.prems(1,2) ys have "strcmp y x < 0" "strcmp x y < 0" by auto
    with asym show False by blast
  qed
  have nx: "x \<notin> set xs" "y \<notin> set ys'"
    using Cons.prems(1,2) ys irr by auto
  with Cons.prems(3) ys xy have "set xs = set ys'" by auto
  with Cons.IH [of ys'] Cons.prems(1,2) ys have "xs = ys'" by simp
  with xy ys show ?case by simp
qed

lemma g_list_sort_any_key_order:
  assumes "distinct xs" "distinct ys" "set xs = set ys"
  shows "g_list_sort xs strcmp = g_list_sort ys strcmp"
  using assms by (intro strictly_sorted_unique strictly_sorted_g_list_sort) simp_all

subsection \<open>The table of discovered files\<close>

lemma map_of_g_hash_table_insert [simp]:
  "map_of (g_hash_table_insert tbl k v) = (map_of tbl)(k \<mapsto> v)"
  by (induction tbl k v rule: g_hash_table_insert.induct) auto

lemma keys_g_hash_table_insert [simp]:
  "fst ` set (g_hash_table_insert tbl k v) = insert k (fst ` set tbl)"
  by (induction tbl k v rule: g_hash_table_insert.induct) auto

lemma distinct_g_hash_table_insert:
  "distinct (map fst tbl) \<Longrightarrow> distinct (map fst (g_hash_table_insert tbl k v))"
proof (induction tbl k v rule: g_hash_table_insert.induct)
  case (1 key v)
  then show ?case by simp
next
  case (2 k old tbl key v)
  then show ?case
    using keys_g_hash_table_insert [of tbl key v] by (auto simp del: keys_g_hash_table_insert)
qed

lemma fold_insert_configs:
  "map_of (fold (\<lambda>path configs. g_hash_table_insert configs (g_path_get_basename path) path) ps tbl) =
   map_of tbl ++ map_of (rev (map (\<lambda>p. (g_path_get_basename p, p)) ps))"
proof (induction ps arbitrary: tbl)
  case Nil
  then show ?case by simp
next
  case (Cons p ps)
  show ?case
    by (rule ext) (simp add: Cons.IH map_add_def split: option.split)
qed

lemma map_of_insert_configs:
  "map_of (insert_configs ps) = map_of (rev (map (\<lambda>p. (g_path_get_basename p, p)) ps))"
  by (simp add: insert_configs_def fold_insert_configs)

lemma fold_insert_configs_keys:
  "fst ` set (fold (\<lambda>path configs. g_hash_table_insert configs (g_path_get_basename path) path) ps tbl) =
   fst ` set tbl \<union> g_path_get_basename ` set ps"
  by (induction ps arbitrary: tbl) auto

lemma keys_insert_configs:
  "fst ` set (insert_configs ps) = g_path_get_basename ` set ps"
  by (simp add: insert_configs_def fold_insert_configs_keys)

lemma fold_insert_configs_distinct:
  "distinct (map fst tbl) \<Longrightarrow>
   distinct (map fst (fold (\<lambda>path configs. g_hash_table_insert configs (g_path_get_basename path) path) ps tbl))"
  by (induction ps arbitrary: tbl) (auto simp: distinct_g_hash_table_insert)

lemma distinct_insert_configs: "distinct (map fst (insert_configs ps))"
  by (simp add: insert_configs_def fold_insert_configs_distinct)

lemma insert_configs_SomeD:
  assumes "map_of (insert_configs ps) b = Some w"
  shows "w \<in> set ps \<and> g_path_get_basename w = b"
proof -
  from assms have "(b, w) \<in> set (rev (map (\<lambda>p. (g_path_get_basename p, p)) ps))"
    unfolding map_of_insert_configs by (rule map_of_SomeD)
  then show ?thesis by auto
qed

lemma insert_configs_None_iff:
  "map_of (insert_configs ps) b = None \<longleftrightarrow> b \<notin> g_path_get_basename ` set ps"
  by (simp add: map_of_eq_None_iff keys_insert_configs)

lemma insert_configs_append:
  "map_of (insert_configs (xs @ ys)) b =
     (case map_of (insert_configs ys) b of
        None \<Rightarrow> map_of (insert_configs xs) b
      | Some w \<Rightarrow> Some w)"
  by (simp add: map_of_insert_configs map_add_def split: option.split)

lemma set_sorted_config_keys [simp]:
  "set (sorted_config_keys configs) = fst ` set configs"
  by (simp add: sorted_config_keys_def g_hash_table_get_keys_def)

lemma distinct_sorted_config_keys:
  "distinct (map fst configs) \<Longrightarrow> distinct (sorted_config_keys configs)"
  by (simp add: sorted_config_keys_def g_hash_table_get_keys_def distinct_g_list_sort)

lemma sorted_sorted_config_keys:
  "distinct (map fst configs) \<Longrightarrow>
   sorted_wrt (\<lambda>a b. strcmp a b < 0) (sorted_config_keys configs)"
  by (simp add: sorted_config_keys_def g_hash_table_get_keys_def strictly_sorted_g_list_sort)

lemma map_filter_lookup_basenames:
  assumes "\<And>k. k \<in> set ks \<Longrightarrow> \<exists>p. lookup k = Some p \<and> bn p = k"
  shows "map bn (List.map_filter lookup ks) = ks"
  using assms
proof (induction ks)
  case Nil
  then show ?case by simp
next
  case (Cons k ks)
  from Cons.prems [of k] obtain p where "lookup k = Some p" "bn p = k" by auto
  moreover have "map bn (List.map_filter lookup ks) = ks"
    using Cons by simp
  ultimately show ?case by simp
qed

lemma basenames_config_files:
  "map g_path_get_basename (config_files (insert_configs ps)) = sorted_config_keys (insert_configs ps)"
  unfolding config_files_def g_hash_table_lookup_def
proof (rule map_filter_lookup_basenames)
  fix k assume "k \<in> set (sorted_config_keys (insert_configs ps))"
  then have "k \<in> g_path_get_basename ` set ps" by (simp add: keys_insert_configs)
  then obtain w where "map_of (insert_configs ps) k = Some w"
    using insert_configs_None_iff [of ps k] by auto
  then show "\<exists>p. map_of (insert_configs ps) k = Some p \<and> g_path_get_basename p = k"
    using insert_configs_SomeD by blast
qed

lemma config_files_sorted:
  "sorted_wrt (\<lambda>a b. strcmp a b < 0) (map g_path_get_basename (config_files (insert_configs ps)))"
  by (simp add: basenames_config_files sorted_sorted_config_keys distinct_insert_configs)

lemma config_files_per_basename:
  "filter (\<lambda>p. g_path_get_basename p = b) (config_files (insert_configs ps)) =
     (case map_of (insert_configs ps) b of None \<Rightarrow> [] | Some w \<Rightarrow> [w])"
proof -
  let ?c = "insert_configs ps"
  have gen: "filter (\<lambda>p. g_path_get_basename p = b) (List.map_filter (map_of ?c) ks) =
        (if b \<in> set ks then (case map_of ?c b of None \<Rightarrow> [] | Some w \<Rightarrow> [w]) else [])"
    if "distinct ks" "set ks \<subseteq> fst ` set ?c" for ks
    using that
  proof (induction ks)
    case Nil
    then show ?case by simp
  next
    case (Cons k ks)
    from Cons.prems have "k \<in> g_path_get_basename ` set ps" by (simp add: keys_insert_configs)
    then obtain w where w: "map_of ?c k = Some w"
      using insert_configs_None_iff [of ps k] by auto
    then have bw: "g_path_get_basename w = k" using insert_configs_SomeD by blast
    have ih: "filter (\<lambda>p. g_path_get_basename p = b) (List.map_filter (map_of ?c) ks) =
        (if b \<in> set ks then (case map_of ?c b of None \<Rightarrow> [] | Some w \<Rightarrow> [w]) else [])"
      using Cons by simp
    show ?case
    proof (cases "k = b")
      case True
      with Cons.prems have "b \<notin> set ks" by simp
      with True w bw ih show ?thesis by simp
    next
      case False
      with w bw ih show ?thesis by simp
    qed
  qed
  have "b \<in> set (sorted_config_keys ?c) \<or> map_of ?c b = None"
    by (auto simp: map_of_eq_None_iff)
  then show ?thesis
    unfolding config_files_def g_hash_table_lookup_def
    using gen [of "sorted_config_keys ?c"]
    by (auto simp: distinct_sorted_config_keys distinct_insert_configs)
qed

lemma basename_of_glob_match:
  assumes "name \<noteq> []" "CHR ''/'' \<notin> set name"
  shows "g_path_get_basename (dir @ ''/'' @ name) = name"
proof -
  have ns: "\<forall>c \<in> set (rev name). \<not> G_IS_DIR_SEPARATOR c"
    using assms by (auto simp: G_IS_DIR_SEPARATOR_def)
  have d: "dropWhile G_IS_DIR_SEPARATOR (rev name @ xs) = rev name @ xs" for xs
    using assms ns by (cases "rev name") auto
  have t: "takeWhile (\<lambda>c. \<not> G_IS_DIR_SEPARATOR c) (rev name @ CHR ''/'' # rev dir) = rev name"
  proof -
    have "takeWhile (\<lambda>c. \<not> G_IS_DIR_SEPARATOR c) (rev name @ CHR ''/'' # rev dir) =
          rev name @ takeWhile (\<lambda>c. \<not> G_IS_DIR_SEPARATOR c) (CHR ''/'' # rev dir)"
      using ns by (intro takeWhile_append2) simp
    then show ?thesis by (simp add: G_IS_DIR_SEPARATOR_def)
  qed
  show ?thesis
    using assms by (simp add: g_path_get_basename_def Let_def d t)
qed

subsection \<open>Reading the input\<close>

lemma process_input_file_Inr:
  assumes "process_input_file env f s = Inr s'"
  shows "trace s' = trace s @ [Parse_yaml f None] \<and> any_networkd s' = any_networkd s \<and> fs s' = fs s"
  using assms by (auto simp: process_input_file_def split: sum.splits)

lemma process_input_file_Inl:
  assumes "process_input_file env f s = Inl (out, s')"
  shows "out = Exit 1 \<and> any_networkd s' = any_networkd s \<and> fs s' = fs s \<and> parsed s' = parsed s \<and>
         (\<exists>msg. parse_yaml env f (parsed s') = Inl msg \<and>
                trace s' = trace s @ [Parse_yaml f (Some msg), Stderr (msg @ ''\<newline>'')])"
  using assms by (auto simp: process_input_file_def split: sum.splits)

lemma process_files_Inr:
  "process_files env fl s = Inr s' \<Longrightarrow>
   trace s' = trace s @ map (\<lambda>f. Parse_yaml f None) fl \<and> any_networkd s' = any_networkd s \<and> fs s' = fs s"
proof (induction fl arbitrary: s)
  case Nil
  then show ?case by simp
next
  case (Cons f fl)
  from Cons.prems obtain s1 where s1: "process_input_file env f s = Inr s1" "process_files env fl s1 = Inr s'"
    by (auto split: sum.splits)
  from Cons.IH [OF s1(2)] process_input_file_Inr [OF s1(1)] show ?case by simp
qed

lemma process_files_Inl:
  "process_files env fl s = Inl (out, s') \<Longrightarrow>
   out = Exit 1 \<and> any_networkd s' = any_networkd s \<and> fs s' = fs s \<and>
   (\<exists>pre f post msg. fl = pre @ f # post \<and> parse_yaml env f (parsed s') = Inl msg \<and>
      trace s' = trace s @ map (\<lambda>f. Parse_yaml f None) pre @ [Parse_yaml f (Some msg), Stderr (msg @ ''\<newline>'')])"
proof (induction fl arbitrary: s)
  case Nil
  then show ?case by simp
next
  case (Cons f fl)
  show ?case
  proof (cases "process_input_file env f s")
    case (Inl stop)
    with Cons.prems have "process_input_file env f s = Inl (out, s')" by simp
    from process_input_file_Inl [OF this] obtain msg where
      m: "out = Exit 1" "any_networkd s' = any_networkd s" "fs s' = fs s"
         "trace s' = trace s @ [Parse_yaml f (Some msg), Stderr (msg @ ''\<newline>'')]"
         "parse_yaml env f (parsed s') = Inl msg"
      by auto
    have "f # fl = [] @ f # fl \<and> parse_yaml env f (parsed s') = Inl msg \<and>
          trace s' = trace s @ map (\<lambda>f. Parse_yaml f None) [] @ [Parse_yaml f (Some msg), Stderr (msg @ ''\<newline>'')]"
      using m by simp
    then show ?thesis using m by blast
  next
    case (Inr s1)
    with Cons.prems have rest: "process_files env fl s1 = Inl (out, s')" by simp
    from Cons.IH [OF rest] obtain pre g post msg where
      r: "out = Exit 1" "any_networkd s' = any_networkd s1" "fs s' = fs s1" "fl = pre @ g # post"
         "parse_yaml env g (parsed s') = Inl msg"
         "trace s' = trace s1 @ map (\<lambda>f. Parse_yaml f None) pre @ [Parse_yaml g (Some msg), Stderr (msg @ ''\<newline>'')]"
      by auto
    from process_input_file_Inr [OF Inr] have
      h: "trace s1 = trace s @ [Parse_yaml f None]" "any_networkd s1 = any_networkd s" "fs s1 = fs s"
      by auto
    have "f # fl = (f # pre) @ g # post \<and> parse_yaml env g (parsed s') = Inl msg \<and>
          trace s' = trace s @ map (\<lambda>f. Parse_yaml f None) (f # pre) @ [Parse_yaml g (Some msg), Stderr (msg @ ''\<newline>'')]"
      using r h by simp
    then show ?thesis using r h by (metis (no_types))
  qed
qed

lemma process_config_keys_files:
  "set keys \<subseteq> fst ` set configs \<Longrightarrow>
   process_config_keys env configs keys s =
   process_files env (List.map_filter (g_hash_table_lookup configs) keys) s"
proof (induction keys arbitrary: s)
  case Nil
  then show ?case by simp
next
  case (Cons k keys)
  then have "k \<in> fst ` set configs" by simp
  then obtain f where f: "map_of configs k = Some f"
    by (metis domD dom_map_of_conv_image_fst)
  with Cons show ?case
    by (simp add: g_hash_table_lookup_def split: sum.split)
qed

lemma process_default_configs_eq:
  "process_default_configs env opts s =
     (if glob_failed (glob env (glob_pattern opts ''/lib/netplan/*.yaml''))
      then Inl (Exit 1, emit (Stderr (''failed to glob for '' @ glob_pattern opts ''/lib/netplan/*.yaml'' @ '': '' @
                 strerror_errno env @ ''\<newline>'')) s)
      else if glob_failed (glob env (glob_pattern opts ''/etc/netplan/*.yaml''))
      then Inl (Exit 1, emit (Stderr (''failed to glob for '' @ glob_pattern opts ''/etc/netplan/*.yaml'' @ '': '' @
                 strerror_errno env @ ''\<newline>'')) s)
      else if glob_failed (glob env (glob_pattern opts ''/run/netplan/*.yaml''))
      then Inl (Exit 1, emit (Stderr (''failed to glob for '' @ glob_pattern opts ''/run/netplan/*.yaml'' @ '': '' @
                 strerror_errno env @ ''\<newline>'')) s)
      else process_files env (default_files env opts) s)"
  by (simp add: process_default_configs_def Let_def default_files_def config_files_def
      lib_paths_def etc_paths_def run_paths_def process_config_keys_files)

subsection \<open>Writing the output\<close>

lemma managed_results_netdef_events:
  "managed_results (concat (map (netdef_events env root) defs)) =
   map (\<lambda>d. write_networkd_conf env d root) defs"
  by (induction defs) (simp_all add: netdef_events_def)

lemma managed_results_route_events:
  "managed_results (map (route_event env root) vs) =
   map (\<lambda>v. write_networkd_global_ip_route env v root) vs"
  by (induction vs) (simp_all add: route_event_def)

lemma managed_results_rule_events:
  "managed_results (map (rule_event env root) vs) =
   map (\<lambda>v. write_networkd_global_ip_rule env v root) vs"
  by (induction vs) (simp_all add: rule_event_def)

lemma managed_results_output_events:
  "managed_results (output_events env root p) =
     (case netdefs env p of
        None \<Rightarrow> []
      | Some defs \<Rightarrow>
          map (\<lambda>d. write_networkd_conf env d root) defs @
          map (\<lambda>v. write_networkd_global_ip_route env v root) (entries (ip_routing env p)) @
          map (\<lambda>v. write_networkd_global_ip_rule env v root) (entries (ip_rules env p)))"
  by (simp add: output_events_def managed_results_netdef_events managed_results_route_events
      managed_results_rule_events udevadm_reload_def split: option.split)

lemma g_hash_table_foreach_routing:
  "trace (g_hash_table_foreach tbl (routing_iterator env) ud s) = trace s @ map (route_event env ud) (entries tbl) \<and>
   any_networkd (g_hash_table_foreach tbl (routing_iterator env) ud s) =
     (any_networkd s \<or> (\<exists>v \<in> set (entries tbl). write_networkd_global_ip_route env v ud)) \<and>
   parsed (g_hash_table_foreach tbl (routing_iterator env) ud s) = parsed s \<and>
   fs (g_hash_table_foreach tbl (routing_iterator env) ud s) = fs s"
  by (cases tbl) (simp_all add: g_hash_table_foreach_def entries_def fold_routing_iterator)

lemma g_hash_table_foreach_rule:
  "trace (g_hash_table_foreach tbl (rule_iterator env) ud s) = trace s @ map (rule_event env ud) (entries tbl) \<and>
   any_networkd (g_hash_table_foreach tbl (rule_iterator env) ud s) =
     (any_networkd s \<or> (\<exists>v \<in> set (entries tbl). write_networkd_global_ip_rule env v ud)) \<and>
   parsed (g_hash_table_foreach tbl (rule_iterator env) ud s) = parsed s \<and>
   fs (g_hash_table_foreach tbl (rule_iterator env) ud s) = fs s"
  by (cases tbl) (simp_all add: g_hash_table_foreach_def entries_def fold_rule_iterator)

lemma write_global_routing_fields:
  "trace (write_global_routing env opts routing rules s) =
     trace s @ map (route_event env (rootdir opts)) (entries routing) @ map (rule_event env (rootdir opts)) (entries rules) \<and>
   any_networkd (write_global_routing env opts routing rules s) =
     (any_networkd s \<or> (\<exists>v \<in> set (entries routing). write_networkd_global_ip_route env v (rootdir opts))
        \<or> (\<exists>v \<in> set (entries rules). write_networkd_global_ip_rule env v (rootdir opts))) \<and>
   parsed (write_global_routing env opts routing rules s) = parsed s \<and>
   fs (write_global_routing env opts routing rules s) = fs s"
  by (simp add: write_global_routing_def g_hash_table_foreach_routing g_hash_table_foreach_rule)

lemma write_output_trace:
  "trace (write_output env opts s) = trace s @ output_events env (rootdir opts) (parsed s) \<and>
   parsed (write_output env opts s) = parsed s \<and>
   fs (write_output env opts s) = fs s"
  by (cases "netdefs env (parsed s)")
     (simp_all add: write_output_def output_events_def Let_def reload_udevd_def udevadm_reload_def
        g_hash_table_foreach_def fold_nd_iterator write_global_routing_fields)

lemma write_output_any_networkd:
  "any_networkd (write_output env opts s) =
     (any_networkd s \<or> True \<in> set (managed_results (output_events env (rootdir opts) (parsed s))))"
proof (cases "netdefs env (parsed s)")
  case None
  then show ?thesis by (simp add: write_output_def output_events_def)
next
  case (Some defs)
  have "any_networkd (write_output env opts s) =
          (any_networkd s \<or> (\<exists>d \<in> set defs. write_networkd_conf env d (rootdir opts)) \<or>
           (\<exists>v \<in> set (entries (ip_routing env (parsed s))). write_networkd_global_ip_route env v (rootdir opts)) \<or>
           (\<exists>v \<in> set (entries (ip_rules env (parsed s))). write_networkd_global_ip_rule env v (rootdir opts)))"
    using Some
    by (simp add: write_output_def Let_def reload_udevd_def g_hash_table_foreach_def
        fold_nd_iterator write_global_routing_fields)
  also have "\<dots> = (any_networkd s \<or> True \<in> set (managed_results (output_events env (rootdir opts) (parsed s))))"
    using Some by (auto simp: managed_results_output_events)
  finally show ?thesis .
qed

lemmas write_output_fields = write_output_trace write_output_any_networkd

lemma generate_None:
  "finish_parse env (parsed s) = None \<Longrightarrow> generate env opts g s = (Aborted, emit (Finish_parse False) s)"
  by (simp add: generate_def)

lemma generate_Some:
  fixes opts :: options
  assumes "finish_parse env (parsed s) = Some p"
  defines "any \<equiv> any_networkd s \<or> True \<in> set (managed_results (output_events env (rootdir opts) p))"
  shows "trace (snd (generate env opts g s)) =
           trace s @ [Finish_parse True, Cleanup_networkd_conf (rootdir opts), Cleanup_nm_conf (rootdir opts)] @
           output_events env (rootdir opts) p @ policy_events env (rootdir opts) p @ finish_events env g any"
    and "any_networkd (snd (generate env opts g s)) = any"
    and "parsed (snd (generate env opts g s)) = p"
    and "fs (snd (generate env opts g s)) =
           (case g of None \<Rightarrow> fs s
            | Some (files0, stamp) \<Rightarrow> if fopen_w env stamp then (fs s)(stamp := Some []) else fs s)"
    and "fst (generate env opts g s) =
           (case g of None \<Rightarrow> Exit 0
            | Some (files0, stamp) \<Rightarrow> if fopen_w env stamp then Exit 0 else Aborted)"
  using assms
  by (auto simp: generate_def Let_def write_output_fields policy_events_def finish_events_def
      split: option.split)

lemma generator_check_Inl:
  assumes "generator_check argv0 opts s = Inl (out, s')"
  shows "any_networkd s' = any_networkd s \<and> fs s' = fs s \<and> parsed s' = parsed s \<and>
         (\<exists>msg. trace s' = trace s @ [Stderr msg]) \<and> (out = Exit 0 \<or> out = Exit 1)"
  using assms by (auto simp: generator_check_def Let_def split: option.splits list.splits if_splits)

lemma generator_check_Inr:
  assumes "generator_check argv0 opts s = Inr (f0, stamp)"
  shows "(\<exists>rest. files opts = Some (f0 # rest) \<and> length rest = 2) \<and>
         stamp = g_build_path [f0, ''netplan.stamp''] \<and> fs s stamp = None"
  using assms
  by (auto simp: generator_check_def Let_def split: option.splits list.splits if_splits)

lemma read_input_Inr:
  assumes "read_input env gen opts s = Inr s'"
  shows "any_networkd s' = any_networkd s \<and> fs s' = fs s \<and>
         (\<exists>fl. trace s' = trace s @ map (\<lambda>f. Parse_yaml f None) fl \<and>
               fl = (if gen \<or> files opts = None then default_files env opts else the (files opts)))"
  using assms
  by (auto simp: read_input_def process_default_configs_eq dest!: process_files_Inr split: option.splits if_splits)

lemma read_input_Inl:
  assumes "read_input env gen opts s = Inl (out, s')"
  shows "out = Exit 1 \<and> any_networkd s' = any_networkd s \<and> fs s' = fs s \<and>
         ((\<exists>msg. trace s' = trace s @ [Stderr msg]) \<or>
          (\<exists>pre f post msg.
             (if gen \<or> files opts = None then default_files env opts else the (files opts)) = pre @ f # post \<and>
             parse_yaml env f (parsed s') = Inl msg \<and>
             trace s' = trace s @ map (\<lambda>f. Parse_yaml f None) pre @ [Parse_yaml f (Some msg), Stderr (msg @ ''\<newline>'')]))"
  using assms
  by (auto simp: read_input_def process_default_configs_eq dest!: process_files_Inl split: option.splits if_splits)

subsection \<open>The shape of a run\<close>

text \<open>Once the options are parsed a run ends in one of four ways: with a single message
  (usage error, stamp present, glob failure), at the first parse error, at a failed
  \<^verbatim>\<open>finish_parse\<close>, or after cleanup and dispatch.\<close>

lemma input_files_eq:
  "(if called_as_generator argv0 \<or> files opts = None then default_files env opts else the (files opts)) =
   input_files env argv0 opts"
  by (auto simp: input_files_def split: option.split)

lemma main_shape [consumes 2, case_names stderr_only parse_error finalize_abort dispatched]:
  assumes "g_option_context_parse env args = Inr opts"
      and "main env p0 argv0 args fs0 = (out, s)"
  obtains
    msg where "trace s = [Stderr msg]" "\<not> any_networkd s" "fs s = fs0" "parsed s = p0"
      "out = Exit 0 \<or> out = Exit 1"
      "out = Exit 0 \<Longrightarrow> called_as_generator argv0 \<and>
         (\<exists>f0 rest. files opts = Some (f0 # rest) \<and> fs0 (g_build_path [f0, ''netplan.stamp'']) \<noteq> None)"
  | pre f post msg where "input_files env argv0 opts = pre @ f # post"
      "trace s = map (\<lambda>f. Parse_yaml f None) pre @ [Parse_yaml f (Some msg), Stderr (msg @ ''\<newline>'')]"
      "parse_yaml env f (parsed s) = Inl msg"
      "\<not> any_networkd s" "fs s = fs0" "out = Exit 1"
  | "trace s = map (\<lambda>f. Parse_yaml f None) (input_files env argv0 opts) @ [Finish_parse False]"
      "\<not> any_networkd s" "fs s = fs0" "out = Aborted"
  | g where
      "trace s = map (\<lambda>f. Parse_yaml f None) (input_files env argv0 opts) @
         [Finish_parse True, Cleanup_networkd_conf (rootdir opts), Cleanup_nm_conf (rootdir opts)] @
         output_events env (rootdir opts) (parsed s) @ policy_events env (rootdir opts) (parsed s) @
         finish_events env g (any_networkd s)"
      "any_networkd s = (True \<in> set (managed_results (output_events env (rootdir opts) (parsed s))))"
      "if called_as_generator argv0
       then \<exists>f0 rest. files opts = Some (f0 # rest) \<and> length rest = 2 \<and>
              g = Some (f0, g_build_path [f0, ''netplan.stamp'']) \<and>
              fs0 (g_build_path [f0, ''netplan.stamp'']) = None
       else g = None"
      "fs s = (case g of None \<Rightarrow> fs0
               | Some (files0, stamp) \<Rightarrow> if fopen_w env stamp then fs0(stamp := Some []) else fs0)"
      "out = (case g of None \<Rightarrow> Exit 0
               | Some (files0, stamp) \<Rightarrow> if fopen_w env stamp then Exit 0 else Aborted)"
proof -
  let ?s0 = "initial_state p0 fs0 :: ('a, 'b, 'c, 'd) state"
  let ?gen = "called_as_generator argv0"
  have s0: "trace ?s0 = []" "any_networkd ?s0 = False" "fs ?s0 = fs0" "parsed ?s0 = p0"
    by (simp_all add: initial_state_def)
  show thesis
  proof (cases "?gen \<and> (\<exists>stop. generator_check argv0 opts ?s0 = Inl stop)")
    case True
    then obtain stop where "generator_check argv0 opts ?s0 = Inl stop" by blast
    with True assms have chk: "generator_check argv0 opts ?s0 = Inl (out, s)"
      by (simp add: main_def Let_def)
    from generator_check_Inl [OF chk] s0 obtain msg where
      a: "trace s = [Stderr msg]" "\<not> any_networkd s" "fs s = fs0" "parsed s = p0" "out = Exit 0 \<or> out = Exit 1"
      by auto
    have "called_as_generator argv0 \<and>
         (\<exists>f0 rest. files opts = Some (f0 # rest) \<and> fs0 (g_build_path [f0, ''netplan.stamp'']) \<noteq> None)"
      if "out = Exit 0"
      using chk that True s0
      by (auto simp: generator_check_def Let_def split: option.splits list.splits if_splits)
    with a show ?thesis by (rule that(1))
  next
    case False
    define g where "g = (if ?gen then (case generator_check argv0 opts ?s0 of Inr pair \<Rightarrow> Some pair | Inl stop \<Rightarrow> None) else None)"
    have guard: "(if ?gen then map_sum id Some (generator_check argv0 opts ?s0) else Inr None) = Inr g"
      using False by (cases "generator_check argv0 opts ?s0") (auto simp: g_def)
    have ginfo: "if ?gen
       then \<exists>f0 rest. files opts = Some (f0 # rest) \<and> length rest = 2 \<and>
              g = Some (f0, g_build_path [f0, ''netplan.stamp'']) \<and>
              fs0 (g_build_path [f0, ''netplan.stamp'']) = None
       else g = None"
    proof (cases ?gen)
      case True
      with False obtain f0 stamp where r: "generator_check argv0 opts ?s0 = Inr (f0, stamp)"
        by (cases "generator_check argv0 opts ?s0") auto
      from generator_check_Inr [OF r] True r s0 show ?thesis by (auto simp: g_def)
    next
      case False
      then show ?thesis by (simp add: g_def)
    qed
    show ?thesis
    proof (cases "read_input env ?gen opts ?s0")
      case (Inl stop)
      with assms guard have ri: "read_input env ?gen opts ?s0 = Inl (out, s)"
        by (simp add: main_def Let_def)
      then have ps: "parsed s = p0 \<or> True" by simp
      from read_input_Inl [OF ri] s0 have
        b: "out = Exit 1" "\<not> any_networkd s" "fs s = fs0" and
        c: "(\<exists>msg. trace s = [Stderr msg]) \<or>
          (\<exists>pre f post msg. input_files env argv0 opts = pre @ f # post \<and>
             parse_yaml env f (parsed s) = Inl msg \<and>
             trace s = map (\<lambda>f. Parse_yaml f None) pre @ [Parse_yaml f (Some msg), Stderr (msg @ ''\<newline>'')])"
        by (auto simp: input_files_eq)
      from c show ?thesis
      proof
        assume "\<exists>msg. trace s = [Stderr msg]"
        then obtain msg where m: "trace s = [Stderr msg]" by blast
        have "parsed s = p0"
          using ri m s0
          by (auto simp: read_input_def process_default_configs_eq
              dest!: process_files_Inl split: option.splits if_splits)
        with m b show ?thesis by (intro that(1) [of msg]) auto
      next
        assume "\<exists>pre f post msg. input_files env argv0 opts = pre @ f # post \<and>
             parse_yaml env f (parsed s) = Inl msg \<and>
             trace s = map (\<lambda>f. Parse_yaml f None) pre @ [Parse_yaml f (Some msg), Stderr (msg @ ''\<newline>'')]"
        then obtain pre f post msg where "input_files env argv0 opts = pre @ f # post"
             "parse_yaml env f (parsed s) = Inl msg"
             "trace s = map (\<lambda>f. Parse_yaml f None) pre @ [Parse_yaml f (Some msg), Stderr (msg @ ''\<newline>'')]"
          by blast
        with b show ?thesis by (intro that(2)) auto
      qed
    next
      case (Inr s1)
      with assms guard have gn: "generate env opts g s1 = (out, s)"
        by (simp add: main_def Let_def)
      from read_input_Inr [OF Inr] s0 have
        s1: "any_networkd s1 = False" "fs s1 = fs0"
            "trace s1 = map (\<lambda>f. Parse_yaml f None) (input_files env argv0 opts)"
        by (auto simp: input_files_eq)
      show ?thesis
      proof (cases "finish_parse env (parsed s1)")
        case None
        from generate_None [OF None, of opts g] gn s1 show ?thesis
          by (intro that(3)) auto
      next
        case (Some p)
        note G = generate_Some [OF Some, of opts g]
        have p: "parsed s = p" using G(3) gn by simp
        have any: "any_networkd s = (True \<in> set (managed_results (output_events env (rootdir opts) (parsed s))))"
          using G(2) gn s1 p by simp
        have tr: "trace s = map (\<lambda>f. Parse_yaml f None) (input_files env argv0 opts) @
         [Finish_parse True, Cleanup_networkd_conf (rootdir opts), Cleanup_nm_conf (rootdir opts)] @
         output_events env (rootdir opts) (parsed s) @ policy_events env (rootdir opts) (parsed s) @
         finish_events env g (any_networkd s)"
          using G(1) gn s1 p any by simp
        have f: "fs s = (case g of None \<Rightarrow> fs0
               | Some (files0, stamp) \<Rightarrow> if fopen_w env stamp then fs0(stamp := Some []) else fs0)"
          using G(4) gn s1 by (simp split: option.split)
        have out: "out = (case g of None \<Rightarrow> Exit 0
               | Some (files0, stamp) \<Rightarrow> if fopen_w env stamp then Exit 0 else Aborted)"
          using G(5) gn by (simp split: option.split)
        from tr any ginfo f out show ?thesis by (rule that(4))
      qed
    qed
  qed
qed

subsection \<open>What each phase can emit\<close>

lemma output_events_kinds:
  "e \<in> set (output_events env root p) \<Longrightarrow> backend_write e \<or> e = udevadm_reload"
  by (auto simp: output_events_def netdef_events_def route_event_def rule_event_def
      split: option.splits)

lemma policy_events_kinds:
  "e \<in> set (policy_events env root p) \<Longrightarrow>
   e = G_string_free_to_file [] root ''/run/NetworkManager/conf.d/10-globally-managed-devices.conf''"
  by (auto simp: policy_events_def split: if_splits)

lemma finish_events_kinds:
  "e \<in> set (finish_events env g any) \<Longrightarrow>
   (\<exists>d. e = Enable_networkd d) \<or> (\<exists>path b. e = Fopen_w path b) \<or> (\<exists>path. e = Fclose path)"
  by (auto simp: finish_events_def split: option.splits if_splits)

lemma enable_not_in_output [simp]:
  "Enable_networkd d \<notin> set (output_events env root p)"
  "Enable_networkd d \<notin> set (policy_events env root p)"
  using output_events_kinds [of "Enable_networkd d" env root p]
        policy_events_kinds [of "Enable_networkd d" env root p]
  by (auto simp: udevadm_reload_def)

lemma parse_calls_parsed [simp]: "parse_calls (map (\<lambda>f. Parse_yaml f None) fl) = fl"
  by (induction fl) simp_all

lemma map_filter_empty: "(\<And>e. e \<in> set tr \<Longrightarrow> f e = None) \<Longrightarrow> List.map_filter f tr = []"
  by (induction tr) (simp_all add: List.map_filter_def)

lemma parse_calls_later [simp]:
  "parse_calls (output_events env root p) = []"
  "parse_calls (policy_events env root p) = []"
  "parse_calls (finish_events env g any) = []"
  unfolding parse_calls_def
  by (rule map_filter_empty; auto simp: udevadm_reload_def
        dest!: output_events_kinds policy_events_kinds finish_events_kinds elim!: backend_write.elims)+

lemma managed_results_other [simp]:
  "managed_results (map (\<lambda>f. Parse_yaml f None) fl) = []"
  "managed_results (policy_events env root p) = []"
  "managed_results (finish_events env g any) = []"
  unfolding managed_results_def
  by (rule map_filter_empty; auto dest!: policy_events_kinds finish_events_kinds)+

lemma route_writes_other [simp]:
  "route_writes (map (\<lambda>f. Parse_yaml f None) fl) = []"
  "route_writes (policy_events env root p) = []"
  "route_writes (finish_events env g any) = []"
  "route_writes (concat (map (netdef_events env root) defs)) = []"
  "route_writes (map (rule_event env root) us) = []"
  unfolding route_writes_def
  by (rule map_filter_empty; auto simp: netdef_events_def rule_event_def
        dest!: policy_events_kinds finish_events_kinds)+

lemma rule_writes_other [simp]:
  "rule_writes (map (\<lambda>f. Parse_yaml f None) fl) = []"
  "rule_writes (policy_events env root p) = []"
  "rule_writes (finish_events env g any) = []"
  "rule_writes (concat (map (netdef_events env root) defs)) = []"
  "rule_writes (map (route_event env root) rs) = []"
  unfolding rule_writes_def
  by (rule map_filter_empty; auto simp: netdef_events_def route_event_def
        dest!: policy_events_kinds finish_events_kinds)+

lemma route_writes_route_events [simp]:
  "route_writes (map (route_event env root) rs) =
   map (\<lambda>r. (r, root, write_networkd_global_ip_route env r root)) rs"
  by (induction rs) (simp_all add: route_event_def)

lemma rule_writes_rule_events [simp]:
  "rule_writes (map (rule_event env root) us) =
   map (\<lambda>u. (u, root, write_networkd_global_ip_rule env u root)) us"
  by (induction us) (simp_all add: rule_event_def)

lemma route_writes_output_events:
  "route_writes (output_events env root p) =
     (case netdefs env p of
        None \<Rightarrow> []
      | Some defs \<Rightarrow>
          map (\<lambda>r. (r, root, write_networkd_global_ip_route env r root)) (entries (ip_routing env p)))"
  by (simp add: output_events_def udevadm_reload_def split: option.split)

lemma rule_writes_output_events:
  "rule_writes (output_events env root p) =
     (case netdefs env p of
        None \<Rightarrow> []
      | Some defs \<Rightarrow>
          map (\<lambda>u. (u, root, write_networkd_global_ip_rule env u root)) (entries (ip_rules env p)))"
  by (simp add: output_events_def udevadm_reload_def split: option.split)

lemma reload_in_output_events:
  "(udevadm_reload \<in> set (output_events env root p)) = (netdefs env p \<noteq> None)"
  by (cases "netdefs env p") (auto simp: output_events_def)

lemma reload_not_elsewhere [simp]:
  "udevadm_reload \<notin> set (policy_events env root p)"
  "udevadm_reload \<notin> set (finish_events env g any)"
  by (auto simp: udevadm_reload_def dest!: policy_events_kinds finish_events_kinds)

lemma finish_parse_not_later [simp]:
  "Finish_parse b \<notin> set (output_events env root p)"
  "Finish_parse b \<notin> set (policy_events env root p)"
  "Finish_parse b \<notin> set (finish_events env g any)"
  by (auto simp: udevadm_reload_def
      dest!: output_events_kinds policy_events_kinds finish_events_kinds)

lemma failed_parse_not_later [simp]:
  "Parse_yaml f r \<notin> set (output_events env root p)"
  "Parse_yaml f r \<notin> set (policy_events env root p)"
  "Parse_yaml f r \<notin> set (finish_events env g any)"
  by (auto simp: udevadm_reload_def
      dest!: output_events_kinds policy_events_kinds finish_events_kinds)

subsection \<open>Runs that end before any input is read, and the input that is read\<close>

lemma main_option_error:
  "g_option_context_parse env args = Inl msg \<Longrightarrow>
   main env p0 argv0 args fs0 =
     (Exit 1, \<lparr>any_networkd = False, parsed = p0, fs = fs0,
               trace = [Stderr (''failed to parse options: '' @ msg @ ''\<newline>'')]\<rparr>)"
  by (simp add: main_def Let_def initial_state_def emit_def)

lemma generator_check_three:
  assumes "files opts = Some [dir, early, late]"
  shows "generator_check argv0 opts s =
           (if fs s (g_build_path [dir, ''netplan.stamp'']) \<noteq> None
            then Inl (Exit 0, emit (Stderr (''netplan generate already ran, remove '' @
                        g_build_path [dir, ''netplan.stamp''] @ '' to force re-run\<newline>'')) s)
            else Inr (dir, g_build_path [dir, ''netplan.stamp'']))"
  using assms by (simp add: generator_check_def Let_def)

lemma main_stamp_present:
  assumes "called_as_generator argv0"
      and "g_option_context_parse env args = Inr opts"
      and "files opts = Some [dir, early, late]"
      and "fs0 (g_build_path [dir, ''netplan.stamp'']) \<noteq> None"
  shows "main env p0 argv0 args fs0 =
           (Exit 0,
            \<lparr>any_networkd = False, parsed = p0, fs = fs0,
             trace = [Stderr (''netplan generate already ran, remove '' @
                        g_build_path [dir, ''netplan.stamp''] @ '' to force re-run\<newline>'')]\<rparr>)"
  using assms
  by (simp add: main_def Let_def generator_check_three initial_state_def emit_def)

lemma main_parse_calls:
  assumes "g_option_context_parse env args = Inr opts"
      and "main env p0 argv0 args fs0 = (out, s)"
  shows "prefix (parse_calls (trace s)) (input_files env argv0 opts)"
    and "Finish_parse ok \<in> set (trace s) \<Longrightarrow> parse_calls (trace s) = input_files env argv0 opts"
  using assms
  by (cases rule: main_shape; auto simp: prefix_def)+

subsection \<open>Runs that get through their input\<close>

text \<open>When generation starts, no glob fails and the parser accepts every file, main reads
  all its input and goes on to \<^verbatim>\<open>finish_parse\<close>.\<close>

lemma process_files_parse_all:
  "parse_all env fl (parsed s) = Some p \<Longrightarrow>
   \<exists>s'. process_files env fl s = Inr s' \<and> parsed s' = p"
proof (induction fl arbitrary: s)
  case Nil
  then show ?case by simp
next
  case (Cons f fl)
  from Cons.prems obtain p1 where p1: "parse_yaml env f (parsed s) = Inr p1" "parse_all env fl p1 = Some p"
    by (auto split: sum.splits)
  let ?s1 = "(emit (Parse_yaml f None) s)\<lparr>parsed := p1\<rparr>"
  have "process_input_file env f s = Inr ?s1"
    using p1 by (simp add: process_input_file_def)
  moreover have "\<exists>s'. process_files env fl ?s1 = Inr s' \<and> parsed s' = p"
    using p1 by (intro Cons.IH) simp
  ultimately show ?case by simp
qed

lemma generation_starts_check:
  assumes "generation_starts argv0 opts (fs s)"
  shows "\<exists>g. (if called_as_generator argv0 then map_sum id Some (generator_check argv0 opts s) else Inr None) = Inr g \<and>
             (if called_as_generator argv0
              then \<exists>dir early late. files opts = Some [dir, early, late] \<and>
                     g = Some (dir, g_build_path [dir, ''netplan.stamp''])
              else g = None)"
  using assms
  by (auto simp: generation_starts_def generator_check_def Let_def split: option.splits list.splits if_splits)

lemma main_reads_all_input:
  assumes "g_option_context_parse env args = Inr opts"
      and "generation_starts argv0 opts fs0"
      and "default_mode argv0 opts \<Longrightarrow> globs_succeed env opts"
      and "parse_all env (input_files env argv0 opts) p0 = Some p"
  shows "\<exists>g s1. main env p0 argv0 args fs0 = generate env opts g s1 \<and> parsed s1 = p \<and>
           any_networkd s1 = False \<and> fs s1 = fs0 \<and>
           trace s1 = map (\<lambda>f. Parse_yaml f None) (input_files env argv0 opts) \<and>
           (if called_as_generator argv0
            then \<exists>dir early late. files opts = Some [dir, early, late] \<and>
                   g = Some (dir, g_build_path [dir, ''netplan.stamp''])
            else g = None)"
proof -
  let ?s0 = "initial_state p0 fs0 :: ('a, 'b, 'c, 'd) state"
  have s0: "trace ?s0 = []" "any_networkd ?s0 = False" "fs ?s0 = fs0" "parsed ?s0 = p0"
    by (simp_all add: initial_state_def)
  from generation_starts_check [of argv0 opts ?s0] assms(2) s0 obtain g where
    g: "(if called_as_generator argv0 then map_sum id Some (generator_check argv0 opts ?s0) else Inr None) = Inr g"
       "if called_as_generator argv0
        then \<exists>dir early late. files opts = Some [dir, early, late] \<and>
               g = Some (dir, g_build_path [dir, ''netplan.stamp''])
        else g = None"
    by auto
  have ri: "read_input env (called_as_generator argv0) opts ?s0 =
            process_files env (input_files env argv0 opts) ?s0"
    using assms(3)
    by (auto simp: read_input_def input_files_def default_mode_def process_default_configs_eq
        globs_succeed_def split: option.splits)
  from process_files_parse_all [of env "input_files env argv0 opts" ?s0 p] assms(4) s0
  obtain s1 where s1: "process_files env (input_files env argv0 opts) ?s0 = Inr s1" "parsed s1 = p"
    by auto
  from process_files_Inr [OF s1(1)] s0 have
    f: "trace s1 = map (\<lambda>f. Parse_yaml f None) (input_files env argv0 opts)"
       "any_networkd s1 = False" "fs s1 = fs0"
    by auto
  have "main env p0 argv0 args fs0 = generate env opts g s1"
    using assms(1) g(1) ri s1(1) by (simp add: main_def Let_def)
  with s1(2) f g(2) show ?thesis by blast
qed

lemma main_reads_all_input_calls:
  assumes "g_option_context_parse env args = Inr opts"
      and "generation_starts argv0 opts fs0"
      and "default_mode argv0 opts \<Longrightarrow> globs_succeed env opts"
      and "parse_all env (input_files env argv0 opts) p0 \<noteq> None"
      and "main env p0 argv0 args fs0 = (out, s)"
  shows "parse_calls (trace s) = input_files env argv0 opts"
proof -
  from assms(4) obtain p where p: "parse_all env (input_files env argv0 opts) p0 = Some p" by auto
  from main_reads_all_input [OF assms(1,2,3) p] obtain g s1 where
    m: "main env p0 argv0 args fs0 = generate env opts g s1" "parsed s1 = p"
       "trace s1 = map (\<lambda>f. Parse_yaml f None) (input_files env argv0 opts)"
    by blast
  have s: "s = snd (generate env opts g s1)"
    using m(1) assms(5) by (metis snd_conv)
  have "\<exists>ok. Finish_parse ok \<in> set (trace s)"
  proof (cases "finish_parse env (parsed s1)")
    case None
    from generate_None [OF None, of opts g] s have "Finish_parse False \<in> set (trace s)" by simp
    then show ?thesis ..
  next
    case (Some p')
    from generate_Some(1) [OF Some, of opts g] s have "Finish_parse True \<in> set (trace s)" by simp
    then show ?thesis ..
  qed
  then obtain ok where "Finish_parse ok \<in> set (trace s)" ..
  from main_parse_calls(2) [OF assms(1,5) this] show ?thesis .
qed

lemma main_writes_stamp:
  assumes "g_option_context_parse env args = Inr opts"
      and "called_as_generator argv0"
      and "files opts = Some [dir, early, late]"
      and "fs0 (g_build_path [dir, ''netplan.stamp'']) = None"
      and "globs_succeed env opts"
      and "input_accepted env (default_files env opts) p0"
      and "main env p0 argv0 args fs0 = (out, s)"
  shows "Finish_parse True \<in> set (trace s)"
proof -
  have gs: "generation_starts argv0 opts fs0"
    using assms(2,3,4) by (simp add: generation_starts_def)
  have inp: "input_files env argv0 opts = default_files env opts"
    using assms(2) by (simp add: input_files_def split: option.split)
  from assms(6) obtain p p' where p: "parse_all env (default_files env opts) p0 = Some p"
      "finish_parse env p = Some p'"
    by (auto simp: input_accepted_def split: option.splits)
  from p(1) inp have pa: "parse_all env (input_files env argv0 opts) p0 = Some p" by simp
  from main_reads_all_input [OF assms(1) gs assms(5) pa] obtain g s1 where
    m: "main env p0 argv0 args fs0 = generate env opts g s1" "parsed s1 = p"
    by blast
  from p(2) m(2) have fp: "finish_parse env (parsed s1) = Some p'" by simp
  have s: "s = snd (generate env opts g s1)"
    using m(1) assms(7) by (metis snd_conv)
  from generate_Some(1) [OF fp, of opts g] s show ?thesis by simp
qed

subsection \<open>Discovered files and effects over a trace\<close>



lemma length_filter_prefix:
  "prefix xs ys \<Longrightarrow> length (filter P xs) \<le> length (filter P ys)"
  by (auto simp: prefix_def)

lemma backend_write_not_cleanup: "backend_write e \<Longrightarrow> \<not> cleanup_call e"
  by (cases e) simp_all

lemma fold_preserves:
  "(\<And>e w. e \<in> set tr \<Longrightarrow> P w \<Longrightarrow> P (eff e w)) \<Longrightarrow> P w0 \<Longrightarrow> P (fold eff tr w0)"
  by (induction tr arbitrary: w0) simp_all

lemma fold_establishes:
  assumes "c \<in> set tr" and "\<And>w. P (eff c w)"
      and "\<And>e w. e \<in> set tr \<Longrightarrow> P w \<Longrightarrow> P (eff e w)"
  shows "P (fold eff tr w0)"
proof -
  from assms(1) obtain xs ys where tr: "tr = xs @ c # ys" by (auto dest: split_list)
  have "P (fold eff ys (eff c (fold eff xs w0)))"
    by (rule fold_preserves) (auto simp: tr assms(2) intro: assms(3))
  then show ?thesis by (simp add: tr)
qed

subsection \<open>Example runs\<close>

text \<open>The definitions that evaluate a run of main on a concrete environment, and four
  runs: the generator on the example tree, a file with a syntax error given on the command
  line, a run where only the integration backend renders, and a run on a file that declares a
  global route and no network definition.\<close>

lemmas run_defs =
  main_def called_as_generator_def initial_state_def generator_check_def
  g_build_path_def build_path_element_def G_IS_DIR_SEPARATOR_def emit_def read_input_def
  process_default_configs_def glob_pattern_def g_strjoin_NULL_def glob_failed_def gl_pathv_def
  insert_configs_def sorted_config_keys_def g_path_get_basename_def g_hash_table_get_keys_def
  g_list_sort_def g_hash_table_lookup_def process_input_file_def generate_def write_output_def
  g_hash_table_foreach_def nd_iterator_def write_global_routing_def routing_iterator_def
  rule_iterator_def reload_udevd_def Let_def

lemma example_generator_run:
  "main example_env [] generator_argv0 generator_args Map.empty =
     (Exit 0,
      \<lparr>any_networkd = True,
       parsed = [''//run/netplan/05-c.yaml'', ''//run/netplan/10-a.yaml'', ''//lib/netplan/20-b.yaml''],
       fs = [''/run/systemd/generator/netplan.stamp'' \<mapsto> []],
       trace =
         [Parse_yaml ''//run/netplan/05-c.yaml'' None,
          Parse_yaml ''//run/netplan/10-a.yaml'' None,
          Parse_yaml ''//lib/netplan/20-b.yaml'' None,
          Finish_parse True,
          Cleanup_networkd_conf None,
          Cleanup_nm_conf None,
          Write_networkd_conf 1 None True,
          Write_nm_conf 1 None,
          Write_networkd_conf 2 None False,
          Write_nm_conf 2 None,
          Write_nm_conf_finish None,
          Write_networkd_global_ip_route 7 None True,
          G_spawn_sync [''/sbin/udevadm'', ''control'', ''--reload''],
          G_string_free_to_file [] None ''/run/NetworkManager/conf.d/10-globally-managed-devices.conf'',
          Enable_networkd ''/run/systemd/generator'',
          Fopen_w ''/run/systemd/generator/netplan.stamp'' True,
          Fclose ''/run/systemd/generator/netplan.stamp'']\<rparr>)"
  by (simp add: run_defs example_env_def example_glob_def generator_argv0_def generator_args_def)

lemma example_parse_error_run:
  "main example_env [] ''/usr/sbin/netplan-generate'' [''a.yaml'', ''bad.yaml'', ''c.yaml''] Map.empty =
     (Exit 1,
      \<lparr>any_networkd = False, parsed = [''a.yaml''], fs = Map.empty,
       trace = [Parse_yaml ''a.yaml'' None,
                Parse_yaml ''bad.yaml'' (Some ''bad.yaml: syntax error''),
                Stderr ''bad.yaml: syntax error\<newline>'']\<rparr>)"
  by (simp add: run_defs example_env_def)

lemma example_nm_run:
  "main example_env_nm [] ''/usr/sbin/netplan-generate'' [''a.yaml''] Map.empty =
     (Exit 0,
      \<lparr>any_networkd = False, parsed = [''a.yaml''], fs = Map.empty,
       trace =
         [Parse_yaml ''a.yaml'' None,
          Finish_parse True,
          Cleanup_networkd_conf None,
          Cleanup_nm_conf None,
          Write_networkd_conf 1 None False,
          Write_nm_conf 1 None,
          Write_networkd_conf 2 None False,
          Write_nm_conf 2 None,
          Write_nm_conf_finish None,
          Write_networkd_global_ip_route 7 None False,
          G_spawn_sync [''/sbin/udevadm'', ''control'', ''--reload''],
          G_string_free_to_file [] None ''/run/NetworkManager/conf.d/10-globally-managed-devices.conf'']\<rparr>)"
  by (simp add: run_defs example_env_nm_def example_env_def)

lemma example_routes_only_run:
  "main example_env_routes_only [] ''/usr/sbin/netplan-generate'' [''routes.yaml''] Map.empty =
     (Exit 0,
      \<lparr>any_networkd = False, parsed = [''routes.yaml''], fs = Map.empty,
       trace =
         [Parse_yaml ''routes.yaml'' None,
          Finish_parse True,
          Cleanup_networkd_conf None,
          Cleanup_nm_conf None,
          G_string_free_to_file [] None ''/run/NetworkManager/conf.d/10-globally-managed-devices.conf'']\<rparr>)"
  by (simp add: run_defs example_env_routes_only_def example_env_def)

lemma example_paths:
  "lib_paths example_env \<lparr>rootdir = None, files = x\<rparr> = [''//lib/netplan/10-a.yaml'', ''//lib/netplan/20-b.yaml'']"
  "etc_paths example_env \<lparr>rootdir = None, files = x\<rparr> = [''//etc/netplan/10-a.yaml'']"
  "run_paths example_env \<lparr>rootdir = None, files = x\<rparr> = [''//run/netplan/05-c.yaml'', ''//run/netplan/10-a.yaml'']"
  by (simp_all add: lib_paths_def etc_paths_def run_paths_def glob_pattern_def g_strjoin_NULL_def
      example_env_def example_glob_def gl_pathv_def)

lemma example_basenames:
  "g_path_get_basename ''//lib/netplan/10-a.yaml'' = ''10-a.yaml''"
  "g_path_get_basename ''//lib/netplan/20-b.yaml'' = ''20-b.yaml''"
  "g_path_get_basename ''//etc/netplan/10-a.yaml'' = ''10-a.yaml''"
  "g_path_get_basename ''//run/netplan/05-c.yaml'' = ''05-c.yaml''"
  "g_path_get_basename ''//run/netplan/10-a.yaml'' = ''10-a.yaml''"
  by (simp_all add: g_path_get_basename_def G_IS_DIR_SEPARATOR_def)

lemma example_default_files:
  "default_files example_env \<lparr>rootdir = None, files = x\<rparr> =
     [''//run/netplan/05-c.yaml'', ''//run/netplan/10-a.yaml'', ''//lib/netplan/20-b.yaml'']"
  "default_files example_env_nm \<lparr>rootdir = None, files = x\<rparr> =
     [''//run/netplan/05-c.yaml'', ''//run/netplan/10-a.yaml'', ''//lib/netplan/20-b.yaml'']"
  by (simp_all add: default_files_def config_files_def lib_paths_def etc_paths_def run_paths_def
      glob_pattern_def g_strjoin_NULL_def gl_pathv_def insert_configs_def sorted_config_keys_def
      g_path_get_basename_def G_IS_DIR_SEPARATOR_def g_hash_table_get_keys_def g_list_sort_def
      g_hash_table_lookup_def List.map_filter_def example_env_nm_def example_env_def example_glob_def)

lemma example_globs_succeed:
  "globs_succeed example_env \<lparr>rootdir = None, files = x\<rparr>"
  "globs_succeed example_env_nm \<lparr>rootdir = None, files = x\<rparr>"
  by (simp_all add: globs_succeed_def glob_pattern_def g_strjoin_NULL_def glob_failed_def
      example_env_nm_def example_env_def example_glob_def)

lemma example_parse_all:
  "parse_all example_env
     [''//run/netplan/05-c.yaml'', ''//run/netplan/10-a.yaml'', ''//lib/netplan/20-b.yaml''] [] =
     Some [''//run/netplan/05-c.yaml'', ''//run/netplan/10-a.yaml'', ''//lib/netplan/20-b.yaml'']"
  "parse_all example_env_nm
     [''//run/netplan/05-c.yaml'', ''//run/netplan/10-a.yaml'', ''//lib/netplan/20-b.yaml''] [] =
     Some [''//run/netplan/05-c.yaml'', ''//run/netplan/10-a.yaml'', ''//lib/netplan/20-b.yaml'']"
  by (simp_all add: example_env_nm_def example_env_def)

lemma example_input_accepted:
  "input_accepted example_env (default_files example_env \<lparr>rootdir = None, files = x\<rparr>) []"
  "input_accepted example_env_nm (default_files example_env_nm \<lparr>rootdir = None, files = x\<rparr>) []"
  unfolding input_accepted_def example_default_files example_parse_all
  by (simp_all add: example_env_nm_def example_env_def)

lemma example_nm_generator_run:
  "main example_env_nm [] generator_argv0 generator_args Map.empty =
     (Exit 0,
      \<lparr>any_networkd = False,
       parsed = [''//run/netplan/05-c.yaml'', ''//run/netplan/10-a.yaml'', ''//lib/netplan/20-b.yaml''],
       fs = [''/run/systemd/generator/netplan.stamp'' \<mapsto> []],
       trace =
         [Parse_yaml ''//run/netplan/05-c.yaml'' None,
          Parse_yaml ''//run/netplan/10-a.yaml'' None,
          Parse_yaml ''//lib/netplan/20-b.yaml'' None,
          Finish_parse True,
          Cleanup_networkd_conf None,
          Cleanup_nm_conf None,
          Write_networkd_conf 1 None False,
          Write_nm_conf 1 None,
          Write_networkd_conf 2 None False,
          Write_nm_conf 2 None,
          Write_nm_conf_finish None,
          Write_networkd_global_ip_route 7 None False,
          G_spawn_sync [''/sbin/udevadm'', ''control'', ''--reload''],
          G_string_free_to_file [] None ''/run/NetworkManager/conf.d/10-globally-managed-devices.conf'',
          Fopen_w ''/run/systemd/generator/netplan.stamp'' True,
          Fclose ''/run/systemd/generator/netplan.stamp'']\<rparr>)"
  by (simp add: run_defs example_env_nm_def example_env_def example_glob_def generator_argv0_def
      generator_args_def)

section \<open>The claims\<close>

text \<open>Each theorem is about a whole run: \<open>main env p0 argv0 args fs0\<close> for an arbitrary
  environment, with \<open>(out, s)\<close> the way the process ended and its final state. A witness
  or counterexample runs main on one of the example environments.\<close>

subsection \<open>C1: when the udev cache is invalidated\<close>

text \<open>C1, as claimed: \<^verbatim>\<open>udevadm control --reload\<close> is run if and only if some entity
  produced output for the service-managed backend. The code runs it at the end of the block
  under \<^verbatim>\<open>if (netdefs)\<close>, whatever the writers returned. Counterexample: both
  definitions and the route are left to the integration backend, every writer of the
  service-managed backend returns FALSE, \<^verbatim>\<open>any_networkd\<close> stays FALSE, and the reload
  is run all the same.\<close>

theorem reload_without_managed_output_counterexample:
  "udevadm_reload
     \<in> set (trace (snd (main example_env_nm [] ''/usr/sbin/netplan-generate'' [''a.yaml''] Map.empty))) \<and>
   managed_results (trace (snd (main example_env_nm [] ''/usr/sbin/netplan-generate'' [''a.yaml''] Map.empty))) =
     [False, False, False] \<and>
   \<not> any_networkd (snd (main example_env_nm [] ''/usr/sbin/netplan-generate'' [''a.yaml''] Map.empty))"
  by (simp add: example_nm_run udevadm_reload_def)

text \<open>C1, amended: the reload is run exactly in the runs that reach the dispatch phase
  (\<^verbatim>\<open>finish_parse\<close> succeeded) with a table of network definitions that is not NULL.
  In particular it is run whenever \<^verbatim>\<open>any_networkd\<close> ends TRUE, and never when the
  table is NULL.\<close>

theorem reload_iff_netdefs_table:
  assumes "main env p0 argv0 args fs0 = (out, s)"
  shows "(udevadm_reload \<in> set (trace s)) =
           (Finish_parse True \<in> set (trace s) \<and> netdefs env (parsed s) \<noteq> None) \<and>
         (any_networkd s \<longrightarrow> udevadm_reload \<in> set (trace s))"
proof (cases "g_option_context_parse env args")
  case (Inl msg)
  from main_option_error [OF Inl, of p0 argv0 fs0] assms show ?thesis
    by (auto simp: udevadm_reload_def)
next
  case (Inr opts)
  from Inr assms show ?thesis
  proof (cases rule: main_shape)
    case (stderr_only msg)
    then show ?thesis by (simp add: udevadm_reload_def)
  next
    case (parse_error pre f post msg)
    then show ?thesis by (auto simp: udevadm_reload_def)
  next
    case finalize_abort
    then show ?thesis by (auto simp: udevadm_reload_def)
  next
    case (dispatched g)
    have a: "(udevadm_reload \<in> set (trace s)) = (netdefs env (parsed s) \<noteq> None)"
      unfolding dispatched(1)
      by (auto simp: reload_in_output_events) (auto simp: udevadm_reload_def)
    have b: "Finish_parse True \<in> set (trace s)"
      unfolding dispatched(1) by simp
    have c: "netdefs env (parsed s) \<noteq> None" if "any_networkd s"
      using that dispatched(2) by (cases "netdefs env (parsed s)") (simp_all add: output_events_def)
    from a b c show ?thesis by simp
  qed
qed

text \<open>The generator run on the example tree: output was produced and the reload is run.\<close>

theorem reload_iff_netdefs_table_witness:
  "udevadm_reload
     \<in> set (trace (snd (main example_env [] generator_argv0 generator_args Map.empty))) \<and>
   netdefs example_env (parsed (snd (main example_env [] generator_argv0 generator_args Map.empty))) = Some [1, 2]"
proof -
  let ?r = "main example_env [] generator_argv0 generator_args Map.empty"
  have m: "?r = (fst ?r, snd ?r)" by simp
  have a: "any_networkd (snd ?r)" by (simp add: example_generator_run)
  have ps: "parsed (snd ?r) = [''//run/netplan/05-c.yaml'', ''//run/netplan/10-a.yaml'', ''//lib/netplan/20-b.yaml'']"
    by (simp add: example_generator_run)
  have n: "netdefs example_env (parsed (snd ?r)) = Some [1, 2]"
    unfolding ps by (simp add: example_env_def)
  from reload_iff_netdefs_table [OF m] a n show ?thesis by blast
qed

subsection \<open>C2: the global routes and rules\<close>

text \<open>C2, as claimed: every entry of the two global tables gets one call of its writer,
  whether or not there are network definitions. The call of \<^verbatim>\<open>write_global_routing\<close>
  stands inside the block under \<^verbatim>\<open>if (netdefs)\<close>. Counterexample: the one file read
  declares a global route and no network definition; the table of network definitions is
  NULL, the finalized model holds the global route 7, the run reaches the dispatch phase
  and returns 0, and no global writer is called.\<close>

theorem global_routes_skipped_counterexample:
  "fst (main example_env_routes_only [] ''/usr/sbin/netplan-generate'' [''routes.yaml''] Map.empty) = Exit 0 \<and>
   Finish_parse True
     \<in> set (trace (snd (main example_env_routes_only [] ''/usr/sbin/netplan-generate''
                              [''routes.yaml''] Map.empty))) \<and>
   netdefs example_env_routes_only
     (parsed (snd (main example_env_routes_only [] ''/usr/sbin/netplan-generate''
                     [''routes.yaml''] Map.empty))) = None \<and>
   ip_routing example_env_routes_only
     (parsed (snd (main example_env_routes_only [] ''/usr/sbin/netplan-generate''
                     [''routes.yaml''] Map.empty))) = Some [7] \<and>
   route_writes (trace (snd (main example_env_routes_only [] ''/usr/sbin/netplan-generate''
                               [''routes.yaml''] Map.empty))) = []"
proof -
  have "netdefs example_env_routes_only [''routes.yaml''] = None"
       "ip_routing example_env_routes_only [''routes.yaml''] = Some [7]"
    by (simp_all add: example_env_routes_only_def example_env_def)
  then show ?thesis by (simp add: example_routes_only_run)
qed

text \<open>C2, amended: in a run that reaches the dispatch phase with a table of network
  definitions that is not NULL, the calls of the global route writer are exactly one per
  entry of the route table, in the table's order, and likewise for the rules; with a NULL
  table of network definitions neither writer is called. In every such run
  \<^verbatim>\<open>any_networkd\<close> ends as the disjunction of all booleans the writers of the
  service-managed backend returned.\<close>

theorem global_writers_once_per_entry:
  assumes "g_option_context_parse env args = Inr opts"
      and "main env p0 argv0 args fs0 = (out, s)"
      and "Finish_parse True \<in> set (trace s)"
  shows "route_writes (trace s) =
           (case netdefs env (parsed s) of
              None \<Rightarrow> []
            | Some defs \<Rightarrow>
                map (\<lambda>r. (r, rootdir opts, write_networkd_global_ip_route env r (rootdir opts)))
                  (entries (ip_routing env (parsed s)))) \<and>
         rule_writes (trace s) =
           (case netdefs env (parsed s) of
              None \<Rightarrow> []
            | Some defs \<Rightarrow>
                map (\<lambda>u. (u, rootdir opts, write_networkd_global_ip_rule env u (rootdir opts)))
                  (entries (ip_rules env (parsed s)))) \<and>
         any_networkd s = (True \<in> set (managed_results (trace s)))"
  using assms(1,2)
proof (cases rule: main_shape)
  case (stderr_only msg)
  with assms(3) show ?thesis by simp
next
  case (parse_error pre f post msg)
  with assms(3) show ?thesis by auto
next
  case finalize_abort
  with assms(3) show ?thesis by auto
next
  case (dispatched g)
  show ?thesis
    unfolding dispatched(1)
    by (simp add: route_writes_output_events rule_writes_output_events dispatched(2))
qed

text \<open>The generator run on the example tree: one route, written once, with result TRUE.\<close>

theorem global_writers_once_per_entry_witness:
  "route_writes (trace (snd (main example_env [] generator_argv0 generator_args Map.empty))) =
     [(7, None, True)] \<and>
   rule_writes (trace (snd (main example_env [] generator_argv0 generator_args Map.empty))) = [] \<and>
   True \<in> set (managed_results (trace (snd (main example_env [] generator_argv0 generator_args Map.empty))))"
proof -
  let ?r = "main example_env [] generator_argv0 generator_args Map.empty"
  have p: "g_option_context_parse example_env generator_args =
             Inr \<lparr>rootdir = None, files = Some generator_args\<rparr>"
    by (simp add: example_env_def generator_args_def)
  have m: "?r = (fst ?r, snd ?r)" by simp
  have f: "Finish_parse True \<in> set (trace (snd ?r))" by (simp add: example_generator_run)
  have a: "any_networkd (snd ?r)" by (simp add: example_generator_run)
  have ps: "parsed (snd ?r) = [''//run/netplan/05-c.yaml'', ''//run/netplan/10-a.yaml'', ''//lib/netplan/20-b.yaml'']"
    by (simp add: example_generator_run)
  have n: "netdefs example_env (parsed (snd ?r)) = Some [1, 2]"
          "ip_routing example_env (parsed (snd ?r)) = Some [7]"
          "ip_rules example_env (parsed (snd ?r)) = None"
          "write_networkd_global_ip_route example_env 7 None"
    unfolding ps by (simp_all add: example_env_def)
  from global_writers_once_per_entry [OF p m f] a n show ?thesis
    by (simp add: entries_def)
qed

subsection \<open>C3: one source per basename, from the highest tier\<close>

text \<open>C3. In default discovery (called as generator, or no file on the command line), take
  any basename found by one of the three globs. At most one path with that basename is
  handed to the parser. Exactly one is, and it is a path of the \<^verbatim>\<open>run/netplan\<close> glob
  if the basename occurs there, else one of the \<^verbatim>\<open>etc/netplan\<close> glob if it occurs
  there, else one of the \<^verbatim>\<open>lib/netplan\<close> glob, in every run that went on to
  \<^verbatim>\<open>finish_parse\<close>, and so in every run where generation starts, no glob fails and
  the parser accepts the discovered files: such a run hands exactly the discovered files
  to the parser.\<close>

theorem one_source_per_basename_highest_tier:
  assumes "g_option_context_parse env args = Inr opts"
      and "default_mode argv0 opts"
      and "main env p0 argv0 args fs0 = (out, s)"
      and "b \<in> g_path_get_basename ` set (lib_paths env opts @ etc_paths env opts @ run_paths env opts)"
  shows "length (filter (\<lambda>p. g_path_get_basename p = b) (parse_calls (trace s))) \<le> 1 \<and>
         (Finish_parse ok \<in> set (trace s) \<longrightarrow>
            (\<exists>w. filter (\<lambda>p. g_path_get_basename p = b) (parse_calls (trace s)) = [w] \<and>
                 (if b \<in> g_path_get_basename ` set (run_paths env opts) then w \<in> set (run_paths env opts)
                  else if b \<in> g_path_get_basename ` set (etc_paths env opts) then w \<in> set (etc_paths env opts)
                  else w \<in> set (lib_paths env opts)))) \<and>
         (generation_starts argv0 opts fs0 \<and> globs_succeed env opts \<and>
          parse_all env (default_files env opts) p0 \<noteq> None \<longrightarrow>
            parse_calls (trace s) = default_files env opts \<and>
            (\<exists>w. filter (\<lambda>p. g_path_get_basename p = b) (parse_calls (trace s)) = [w] \<and>
                 (if b \<in> g_path_get_basename ` set (run_paths env opts) then w \<in> set (run_paths env opts)
                  else if b \<in> g_path_get_basename ` set (etc_paths env opts) then w \<in> set (etc_paths env opts)
                  else w \<in> set (lib_paths env opts))))"
proof -
  let ?lib = "lib_paths env opts" and ?etc = "etc_paths env opts" and ?run = "run_paths env opts"
  let ?bn = g_path_get_basename
  let ?ps = "?lib @ ?etc @ ?run"
  have inp: "input_files env argv0 opts = config_files (insert_configs ?ps)"
    using assms(2) by (auto simp: input_files_def default_mode_def default_files_def split: option.split)
  have dfl: "default_files env opts = config_files (insert_configs ?ps)"
    by (simp add: default_files_def)
  from assms(4) obtain w where w: "map_of (insert_configs ?ps) b = Some w"
    using insert_configs_None_iff [of ?ps b] by auto
  have all: "filter (\<lambda>p. ?bn p = b) (config_files (insert_configs ?ps)) = [w]"
    by (simp add: config_files_per_basename w)
  have tier: "if b \<in> ?bn ` set ?run then w \<in> set ?run
              else if b \<in> ?bn ` set ?etc then w \<in> set ?etc else w \<in> set ?lib"
  proof (cases "map_of (insert_configs ?run) b")
    case (Some v)
    with w have "v = w" by (simp add: insert_configs_append [of ?lib] insert_configs_append [of ?etc])
    with Some insert_configs_SomeD [OF Some] insert_configs_None_iff [of ?run b] show ?thesis by auto
  next
    case None
    note nr = None
    show ?thesis
    proof (cases "map_of (insert_configs ?etc) b")
      case (Some v)
      with w nr have "v = w" by (simp add: insert_configs_append [of ?lib] insert_configs_append [of ?etc])
      with Some nr insert_configs_SomeD [OF Some] insert_configs_None_iff [of ?run b]
        insert_configs_None_iff [of ?etc b] show ?thesis by auto
    next
      case None
      with w nr have l: "map_of (insert_configs ?lib) b = Some w"
        by (simp add: insert_configs_append [of ?lib] insert_configs_append [of ?etc])
      with None nr insert_configs_SomeD [OF l] insert_configs_None_iff [of ?run b]
        insert_configs_None_iff [of ?etc b] show ?thesis by auto
    qed
  qed
  have pre: "prefix (parse_calls (trace s)) (config_files (insert_configs ?ps))"
    using main_parse_calls(1) [OF assms(1,3)] inp by simp
  have le: "length (filter (\<lambda>p. ?bn p = b) (parse_calls (trace s))) \<le> 1"
    using length_filter_prefix [OF pre, of "\<lambda>p. ?bn p = b"] all by simp
  have ex: "\<exists>w. filter (\<lambda>p. ?bn p = b) (parse_calls (trace s)) = [w] \<and>
                 (if b \<in> ?bn ` set ?run then w \<in> set ?run
                  else if b \<in> ?bn ` set ?etc then w \<in> set ?etc else w \<in> set ?lib)"
    if "parse_calls (trace s) = config_files (insert_configs ?ps)"
    using that all tier by auto
  have fin: "parse_calls (trace s) = config_files (insert_configs ?ps)"
    if "Finish_parse ok \<in> set (trace s)"
    using main_parse_calls(2) [OF assms(1,3) that] inp by simp
  have prog: "parse_calls (trace s) = config_files (insert_configs ?ps)"
    if "generation_starts argv0 opts fs0" "globs_succeed env opts"
       "parse_all env (default_files env opts) p0 \<noteq> None"
    using main_reads_all_input_calls [OF assms(1) that(1) that(2) _ assms(3)] that(3) inp dfl
    by simp
  from le ex fin prog dfl show ?thesis by auto
qed

text \<open>Plain default discovery on the example tree, where \<^verbatim>\<open>10-a.yaml\<close> is in all
  three directories.\<close>

theorem one_source_per_basename_highest_tier_witness:
  "default_mode ''/usr/sbin/netplan-generate'' \<lparr>rootdir = None, files = None\<rparr> \<and>
   ''10-a.yaml'' \<in> g_path_get_basename ` set (lib_paths example_env \<lparr>rootdir = None, files = None\<rparr>) \<and>
   ''10-a.yaml'' \<in> g_path_get_basename ` set (etc_paths example_env \<lparr>rootdir = None, files = None\<rparr>) \<and>
   ''10-a.yaml'' \<in> g_path_get_basename ` set (run_paths example_env \<lparr>rootdir = None, files = None\<rparr>) \<and>
   parse_calls (trace (snd (main example_env [] ''/usr/sbin/netplan-generate'' [] Map.empty))) =
     [''//run/netplan/05-c.yaml'', ''//run/netplan/10-a.yaml'', ''//lib/netplan/20-b.yaml''] \<and>
   (\<exists>w. filter (\<lambda>p. g_path_get_basename p = ''10-a.yaml'')
           (parse_calls (trace (snd (main example_env [] ''/usr/sbin/netplan-generate'' [] Map.empty)))) = [w] \<and>
        w \<in> set (run_paths example_env \<lparr>rootdir = None, files = None\<rparr>))"
proof -
  let ?r = "main example_env [] ''/usr/sbin/netplan-generate'' [] Map.empty"
  let ?opts = "\<lparr>rootdir = None, files = None\<rparr>"
  have p: "g_option_context_parse example_env [] = Inr ?opts"
    by (simp add: example_env_def)
  have d: "default_mode ''/usr/sbin/netplan-generate'' ?opts"
    by (simp add: default_mode_def)
  have m: "?r = (fst ?r, snd ?r)" by simp
  have gs: "generation_starts ''/usr/sbin/netplan-generate'' ?opts Map.empty"
    by (simp add: generation_starts_def called_as_generator_def)
  have gl: "globs_succeed example_env ?opts" by (rule example_globs_succeed)
  have pa: "parse_all example_env (default_files example_env ?opts) [] \<noteq> None"
    unfolding example_default_files example_parse_all by simp
  have b: "''10-a.yaml'' \<in> g_path_get_basename ` set (lib_paths example_env ?opts)"
          "''10-a.yaml'' \<in> g_path_get_basename ` set (etc_paths example_env ?opts)"
          "''10-a.yaml'' \<in> g_path_get_basename ` set (run_paths example_env ?opts)"
    by (simp_all add: example_paths example_basenames)
  then have a: "''10-a.yaml'' \<in> g_path_get_basename `
                  set (lib_paths example_env ?opts @ etc_paths example_env ?opts @ run_paths example_env ?opts)"
    by auto
  from one_source_per_basename_highest_tier [OF p d m a, of True] gs gl pa
  have both: "parse_calls (trace (snd ?r)) = default_files example_env ?opts \<and>
        (\<exists>w. filter (\<lambda>p. g_path_get_basename p = ''10-a.yaml'') (parse_calls (trace (snd ?r))) = [w] \<and>
             (if ''10-a.yaml'' \<in> g_path_get_basename ` set (run_paths example_env ?opts)
              then w \<in> set (run_paths example_env ?opts)
              else if ''10-a.yaml'' \<in> g_path_get_basename ` set (etc_paths example_env ?opts)
              then w \<in> set (etc_paths example_env ?opts)
              else w \<in> set (lib_paths example_env ?opts)))"
    by blast
  from both have "parse_calls (trace (snd ?r)) = default_files example_env ?opts"
    by (rule conjunct1)
  then have calls: "parse_calls (trace (snd ?r)) =
      [''//run/netplan/05-c.yaml'', ''//run/netplan/10-a.yaml'', ''//lib/netplan/20-b.yaml'']"
    by (simp only: example_default_files)
  from both have "\<exists>w. filter (\<lambda>p. g_path_get_basename p = ''10-a.yaml'') (parse_calls (trace (snd ?r))) = [w] \<and>
             (if ''10-a.yaml'' \<in> g_path_get_basename ` set (run_paths example_env ?opts)
              then w \<in> set (run_paths example_env ?opts)
              else if ''10-a.yaml'' \<in> g_path_get_basename ` set (etc_paths example_env ?opts)
              then w \<in> set (etc_paths example_env ?opts)
              else w \<in> set (lib_paths example_env ?opts))"
    by (rule conjunct2)
  with b(3) have one: "\<exists>w. filter (\<lambda>p. g_path_get_basename p = ''10-a.yaml'')
             (parse_calls (trace (snd ?r))) = [w] \<and> w \<in> set (run_paths example_env ?opts)"
    by (simp only: if_True)
  from d b calls one show ?thesis by blast
qed

subsection \<open>C4: the sources are read in the order of their basenames\<close>

text \<open>C4. In default discovery the basenames of the paths handed to the parser, in call
  order, are strictly ascending for \<^verbatim>\<open>strcmp\<close>, whatever directory each path comes
  from. In every run that went on to \<^verbatim>\<open>finish_parse\<close> they are all the basenames the
  three globs found; and a run where generation starts, no glob fails and the parser
  accepts the discovered files hands exactly the discovered files to the parser, so there
  too every basename found is read, in that order.\<close>

theorem default_sources_read_in_basename_order:
  assumes "g_option_context_parse env args = Inr opts"
      and "default_mode argv0 opts"
      and "main env p0 argv0 args fs0 = (out, s)"
  shows "sorted_wrt (\<lambda>a b. strcmp a b < 0) (map g_path_get_basename (parse_calls (trace s))) \<and>
         (Finish_parse ok \<in> set (trace s) \<longrightarrow>
            set (map g_path_get_basename (parse_calls (trace s))) =
            g_path_get_basename ` set (lib_paths env opts @ etc_paths env opts @ run_paths env opts)) \<and>
         (generation_starts argv0 opts fs0 \<and> globs_succeed env opts \<and>
          parse_all env (default_files env opts) p0 \<noteq> None \<longrightarrow>
            parse_calls (trace s) = default_files env opts \<and>
            set (map g_path_get_basename (parse_calls (trace s))) =
            g_path_get_basename ` set (lib_paths env opts @ etc_paths env opts @ run_paths env opts))"
proof -
  let ?ps = "lib_paths env opts @ etc_paths env opts @ run_paths env opts"
  have inp: "input_files env argv0 opts = config_files (insert_configs ?ps)"
    using assms(2) by (auto simp: input_files_def default_mode_def default_files_def split: option.split)
  have dfl: "default_files env opts = config_files (insert_configs ?ps)"
    by (simp add: default_files_def)
  from main_parse_calls(1) [OF assms(1,3)] inp
  obtain rest where r: "config_files (insert_configs ?ps) = parse_calls (trace s) @ rest"
    by (auto simp: prefix_def)
  have "sorted_wrt (\<lambda>a b. strcmp a b < 0)
          (map g_path_get_basename (parse_calls (trace s)) @ map g_path_get_basename rest)"
    using config_files_sorted [of ?ps] r by simp
  then have s1: "sorted_wrt (\<lambda>a b. strcmp a b < 0) (map g_path_get_basename (parse_calls (trace s)))"
    by (simp add: sorted_wrt_append)
  have cover: "set (map g_path_get_basename (parse_calls (trace s))) = g_path_get_basename ` set ?ps"
    if "parse_calls (trace s) = config_files (insert_configs ?ps)"
  proof -
    have "map g_path_get_basename (parse_calls (trace s)) = sorted_config_keys (insert_configs ?ps)"
      using that by (simp add: basenames_config_files)
    then show ?thesis by (simp add: keys_insert_configs)
  qed
  have fin: "parse_calls (trace s) = config_files (insert_configs ?ps)"
    if "Finish_parse ok \<in> set (trace s)"
    using main_parse_calls(2) [OF assms(1,3) that] inp by simp
  have prog: "parse_calls (trace s) = config_files (insert_configs ?ps)"
    if "generation_starts argv0 opts fs0" "globs_succeed env opts"
       "parse_all env (default_files env opts) p0 \<noteq> None"
    using main_reads_all_input_calls [OF assms(1) that(1) that(2) _ assms(3)] that(3) inp dfl
    by simp
  from s1 cover fin prog dfl show ?thesis by auto
qed

text \<open>Plain default discovery on the example tree: the first two files read are from
  \<^verbatim>\<open>run/netplan\<close>, the third from \<^verbatim>\<open>lib/netplan\<close>.\<close>

theorem default_sources_read_in_basename_order_witness:
  "default_mode ''/usr/sbin/netplan-generate'' \<lparr>rootdir = None, files = None\<rparr> \<and>
   parse_calls (trace (snd (main example_env [] ''/usr/sbin/netplan-generate'' [] Map.empty))) =
     [''//run/netplan/05-c.yaml'', ''//run/netplan/10-a.yaml'', ''//lib/netplan/20-b.yaml''] \<and>
   sorted_wrt (\<lambda>a b. strcmp a b < 0) [''05-c.yaml'', ''10-a.yaml'', ''20-b.yaml'']"
proof -
  let ?r = "main example_env [] ''/usr/sbin/netplan-generate'' [] Map.empty"
  let ?opts = "\<lparr>rootdir = None, files = None\<rparr>"
  have p: "g_option_context_parse example_env [] = Inr ?opts"
    by (simp add: example_env_def)
  have d: "default_mode ''/usr/sbin/netplan-generate'' ?opts"
    by (simp add: default_mode_def)
  have m: "?r = (fst ?r, snd ?r)" by simp
  have gs: "generation_starts ''/usr/sbin/netplan-generate'' ?opts Map.empty"
    by (simp add: generation_starts_def called_as_generator_def)
  have gl: "globs_succeed example_env ?opts" by (rule example_globs_succeed)
  have pa: "parse_all example_env (default_files example_env ?opts) [] \<noteq> None"
    unfolding example_default_files example_parse_all by simp
  from default_sources_read_in_basename_order [OF p d m, of True] gs gl pa
  have "sorted_wrt (\<lambda>a b. strcmp a b < 0) (map g_path_get_basename (parse_calls (trace (snd ?r)))) \<and>
        parse_calls (trace (snd ?r)) = default_files example_env ?opts"
    by blast
  with d show ?thesis by (simp add: example_default_files example_basenames)
qed

subsection \<open>C5: the stamp makes a second generator run a no-op\<close>

text \<open>C5. Called as generator with three directories, if the stamp file
  \<^verbatim>\<open>netplan.stamp\<close> in the first directory exists, the run prints one message and
  returns 0: nothing is parsed, cleaned up, written, enabled or reloaded, and the files are
  untouched. Hence a second run, started on the files a first run left when it returned 0,
  does none of the generation work.\<close>

theorem generator_stamp_makes_rerun_noop:
  assumes "called_as_generator argv0"
      and "g_option_context_parse env args = Inr opts"
      and "files opts = Some [dir, early, late]"
  shows "(fs0 (g_build_path [dir, ''netplan.stamp'']) \<noteq> None \<longrightarrow>
            main env p0 argv0 args fs0 =
              (Exit 0,
               \<lparr>any_networkd = False, parsed = p0, fs = fs0,
                trace = [Stderr (''netplan generate already ran, remove '' @
                           g_build_path [dir, ''netplan.stamp''] @ '' to force re-run\<newline>'')]\<rparr>)) \<and>
         (\<forall>s1. main env p0 argv0 args fs0 = (Exit 0, s1) \<longrightarrow>
            main env p1 argv0 args (fs s1) =
              (Exit 0,
               \<lparr>any_networkd = False, parsed = p1, fs = fs s1,
                trace = [Stderr (''netplan generate already ran, remove '' @
                           g_build_path [dir, ''netplan.stamp''] @ '' to force re-run\<newline>'')]\<rparr>))"
proof (intro conjI allI impI)
  assume "fs0 (g_build_path [dir, ''netplan.stamp'']) \<noteq> None"
  with assms show "main env p0 argv0 args fs0 =
              (Exit 0,
               \<lparr>any_networkd = False, parsed = p0, fs = fs0,
                trace = [Stderr (''netplan generate already ran, remove '' @
                           g_build_path [dir, ''netplan.stamp''] @ '' to force re-run\<newline>'')]\<rparr>)"
    by (rule main_stamp_present)
next
  fix s1 :: "('a, 'b, 'c, 'd) state"
  assume first: "main env p0 argv0 args fs0 = (Exit 0, s1)"
  have "fs s1 (g_build_path [dir, ''netplan.stamp'']) \<noteq> None"
    using assms(2) first
  proof (cases rule: main_shape)
    case (stderr_only msg)
    with assms(3) show ?thesis by auto
  next
    case (parse_error pre f post msg)
    then show ?thesis by simp
  next
    case finalize_abort
    then show ?thesis by simp
  next
    case (dispatched g)
    with assms(1,3) have g: "g = Some (dir, g_build_path [dir, ''netplan.stamp''])" by auto
    with dispatched(5) have "fopen_w env (g_build_path [dir, ''netplan.stamp''])"
      by (auto split: if_splits)
    with dispatched(4) g show ?thesis by simp
  qed
  with assms show "main env p1 argv0 args (fs s1) =
              (Exit 0,
               \<lparr>any_networkd = False, parsed = p1, fs = fs s1,
                trace = [Stderr (''netplan generate already ran, remove '' @
                           g_build_path [dir, ''netplan.stamp''] @ '' to force re-run\<newline>'')]\<rparr>)"
    by (rule main_stamp_present)
qed

text \<open>The generator on the example tree, twice: the first run returns 0, the second one
  finds the stamp.\<close>

theorem generator_stamp_makes_rerun_noop_witness:
  "fst (main example_env [] generator_argv0 generator_args Map.empty) = Exit 0 \<and>
   main example_env [] generator_argv0 generator_args
     (fs (snd (main example_env [] generator_argv0 generator_args Map.empty))) =
     (Exit 0,
      \<lparr>any_networkd = False, parsed = [],
       fs = [''/run/systemd/generator/netplan.stamp'' \<mapsto> []],
       trace = [Stderr ''netplan generate already ran, remove /run/systemd/generator/netplan.stamp to force re-run\<newline>'']\<rparr>)"
proof -
  have g: "called_as_generator generator_argv0"
    by (simp add: called_as_generator_def generator_argv0_def)
  have p: "g_option_context_parse example_env generator_args =
             Inr \<lparr>rootdir = None, files = Some generator_args\<rparr>"
    by (simp add: example_env_def generator_args_def)
  have f: "files \<lparr>rootdir = None, files = Some generator_args\<rparr> =
             Some [''/run/systemd/generator'', ''/run/systemd/generator.early'', ''/run/systemd/generator.late'']"
    by (simp add: generator_args_def)
  have st: "g_build_path [''/run/systemd/generator'', ''netplan.stamp''] = ''/run/systemd/generator/netplan.stamp''"
    by (simp add: g_build_path_def build_path_element_def G_IS_DIR_SEPARATOR_def Let_def)
  from generator_stamp_makes_rerun_noop [OF g p f, of Map.empty "[]" "[]"] example_generator_run
  show ?thesis by (simp add: st)
qed

subsection \<open>C6: enabling the service and writing the stamp\<close>

text \<open>C6. In a generator run with three directories and no stamp file,
  \<^verbatim>\<open>enable_networkd\<close> is called, with the first directory, if and only if
  \<^verbatim>\<open>any_networkd\<close> is TRUE, which is the disjunction of the booleans the writers of
  the service-managed backend returned. The run returns 0 exactly when it has left an
  empty stamp file, and then opening and closing the stamp are the last two calls of the
  run. If the stamp cannot be opened the run does not return 0 (the assertion aborts it).
  Every run that reaches the dispatch phase does open the stamp, whether or not anything
  was written for the service-managed backend, and if the stamp can be opened it returns 0
  with the stamp in place; a run reaches the dispatch phase whenever no glob fails, the
  parser accepts the discovered files and \<^verbatim>\<open>finish_parse\<close> succeeds.\<close>

theorem generator_enables_service_then_stamps:
  assumes "called_as_generator argv0"
      and "g_option_context_parse env args = Inr opts"
      and "files opts = Some [dir, early, late]"
      and "fs0 (g_build_path [dir, ''netplan.stamp'']) = None"
      and "main env p0 argv0 args fs0 = (out, s)"
  shows "(Enable_networkd d \<in> set (trace s)) = (any_networkd s \<and> d = dir) \<and>
         (out = Exit 0) = (fs s (g_build_path [dir, ''netplan.stamp'']) = Some []) \<and>
         (out = Exit 0 \<longrightarrow>
            (\<exists>pre. trace s = pre @ [Fopen_w (g_build_path [dir, ''netplan.stamp'']) True,
                                      Fclose (g_build_path [dir, ''netplan.stamp''])])) \<and>
         (\<not> fopen_w env (g_build_path [dir, ''netplan.stamp'']) \<longrightarrow> out \<noteq> Exit 0) \<and>
         any_networkd s = (True \<in> set (managed_results (trace s))) \<and>
         (Finish_parse True \<in> set (trace s) \<longrightarrow>
            Fopen_w (g_build_path [dir, ''netplan.stamp''])
              (fopen_w env (g_build_path [dir, ''netplan.stamp''])) \<in> set (trace s)) \<and>
         (Finish_parse True \<in> set (trace s) \<and> fopen_w env (g_build_path [dir, ''netplan.stamp'']) \<longrightarrow>
            out = Exit 0 \<and> fs s (g_build_path [dir, ''netplan.stamp'']) = Some []) \<and>
         (globs_succeed env opts \<and> input_accepted env (default_files env opts) p0 \<and>
          fopen_w env (g_build_path [dir, ''netplan.stamp'']) \<longrightarrow>
            Finish_parse True \<in> set (trace s) \<and> out = Exit 0 \<and>
            fs s (g_build_path [dir, ''netplan.stamp'']) = Some [])"
proof -
  let ?stamp = "g_build_path [dir, ''netplan.stamp'']"
  have reach: "Finish_parse True \<in> set (trace s)"
    if "globs_succeed env opts" "input_accepted env (default_files env opts) p0"
    using main_writes_stamp [OF assms(2,1,3,4) that assms(5)] .
  have main: "(Enable_networkd d \<in> set (trace s)) = (any_networkd s \<and> d = dir) \<and>
         (out = Exit 0) = (fs s ?stamp = Some []) \<and>
         (out = Exit 0 \<longrightarrow> (\<exists>pre. trace s = pre @ [Fopen_w ?stamp True, Fclose ?stamp])) \<and>
         (\<not> fopen_w env ?stamp \<longrightarrow> out \<noteq> Exit 0) \<and>
         any_networkd s = (True \<in> set (managed_results (trace s))) \<and>
         (Finish_parse True \<in> set (trace s) \<longrightarrow> Fopen_w ?stamp (fopen_w env ?stamp) \<in> set (trace s)) \<and>
         (Finish_parse True \<in> set (trace s) \<and> fopen_w env ?stamp \<longrightarrow>
            out = Exit 0 \<and> fs s ?stamp = Some [])"
    using assms(2,5)
  proof (cases rule: main_shape)
    case (stderr_only msg)
    with assms(3,4) have "out = Exit 1" by auto
    with stderr_only assms(4) show ?thesis by simp
  next
    case (parse_error pre f post msg)
    with assms(4) show ?thesis by auto
  next
    case finalize_abort
    with assms(4) show ?thesis by auto
  next
    case (dispatched g)
    from dispatched(3) assms(1,3) have g: "g = Some (dir, ?stamp)" by auto
    have en: "(Enable_networkd d \<in> set (trace s)) = (any_networkd s \<and> d = dir)"
      unfolding dispatched(1) g by (auto simp: finish_events_def)
    have any: "any_networkd s = (True \<in> set (managed_results (trace s)))"
      unfolding dispatched(1) by (simp add: dispatched(2))
    have fo: "Fopen_w ?stamp (fopen_w env ?stamp) \<in> set (trace s)"
      unfolding dispatched(1) g by (simp add: finish_events_def)
    show ?thesis
    proof (cases "fopen_w env ?stamp")
      case True
      with dispatched(4,5) g have "out = Exit 0" "fs s ?stamp = Some []" by simp_all
      moreover have "\<exists>pre. trace s = pre @ [Fopen_w ?stamp True, Fclose ?stamp]"
        unfolding dispatched(1) g using True by (simp add: finish_events_def)
      ultimately show ?thesis using en any fo True by simp
    next
      case False
      with dispatched(4,5) g assms(4) have "out = Aborted" "fs s ?stamp = None" by simp_all
      with en any fo False show ?thesis by simp
    qed
  qed
  from main reach show ?thesis by blast
qed

text \<open>The generator on the example tree, once with output for the service-managed backend
  and once with every definition left to the integration backend: the service is enabled
  in the first run only, the stamp is written in both.\<close>

theorem generator_enables_service_then_stamps_witness:
  "Enable_networkd ''/run/systemd/generator''
     \<in> set (trace (snd (main example_env [] generator_argv0 generator_args Map.empty))) \<and>
   fst (main example_env [] generator_argv0 generator_args Map.empty) = Exit 0 \<and>
   fs (snd (main example_env [] generator_argv0 generator_args Map.empty))
     ''/run/systemd/generator/netplan.stamp'' = Some [] \<and>
   Enable_networkd ''/run/systemd/generator''
     \<notin> set (trace (snd (main example_env_nm [] generator_argv0 generator_args Map.empty))) \<and>
   fst (main example_env_nm [] generator_argv0 generator_args Map.empty) = Exit 0 \<and>
   fs (snd (main example_env_nm [] generator_argv0 generator_args Map.empty))
     ''/run/systemd/generator/netplan.stamp'' = Some []"
proof -
  let ?r = "main example_env [] generator_argv0 generator_args Map.empty"
  let ?n = "main example_env_nm [] generator_argv0 generator_args Map.empty"
  let ?opts = "\<lparr>rootdir = None, files = Some generator_args\<rparr>"
  let ?stamp = "g_build_path [''/run/systemd/generator'', ''netplan.stamp'']"
  have g: "called_as_generator generator_argv0"
    by (simp add: called_as_generator_def generator_argv0_def)
  have p: "g_option_context_parse example_env generator_args = Inr ?opts"
          "g_option_context_parse example_env_nm generator_args = Inr ?opts"
    by (simp_all add: example_env_nm_def example_env_def generator_args_def)
  have f: "files ?opts =
             Some [''/run/systemd/generator'', ''/run/systemd/generator.early'', ''/run/systemd/generator.late'']"
    by (simp add: generator_args_def)
  have st: "?stamp = ''/run/systemd/generator/netplan.stamp''"
    by (simp add: g_build_path_def build_path_element_def G_IS_DIR_SEPARATOR_def Let_def)
  have a: "Map.empty ?stamp = (None :: string option)"
    by simp
  have m: "?r = (fst ?r, snd ?r)" "?n = (fst ?n, snd ?n)" by simp_all
  have fo: "fopen_w example_env ?stamp" "fopen_w example_env_nm ?stamp"
    by (simp_all add: example_env_nm_def example_env_def)
  have any: "any_networkd (snd ?r)" "\<not> any_networkd (snd ?n)"
    by (simp_all add: example_generator_run example_nm_generator_run)
  note t1 = generator_enables_service_then_stamps [OF g p(1) f a m(1), of "''/run/systemd/generator''"]
  note t2 = generator_enables_service_then_stamps [OF g p(2) f a m(2), of "''/run/systemd/generator''"]
  from t1 any(1) fo(1) example_globs_succeed(1) [of "Some generator_args"]
    example_input_accepted(1) [of "Some generator_args"]
  have r: "Enable_networkd ''/run/systemd/generator'' \<in> set (trace (snd ?r)) \<and>
           fst ?r = Exit 0 \<and> fs (snd ?r) ?stamp = Some []"
    by blast
  from t2 any(2) fo(2) example_globs_succeed(2) [of "Some generator_args"]
    example_input_accepted(2) [of "Some generator_args"]
  have n: "Enable_networkd ''/run/systemd/generator'' \<notin> set (trace (snd ?n)) \<and>
           fst ?n = Exit 0 \<and> fs (snd ?n) ?stamp = Some []"
    by blast
  from r n show ?thesis by (simp only: st) blast
qed

subsection \<open>C7: usage error under the generator calling convention\<close>

text \<open>C7. Called as generator with any number of positional arguments other than three
  (none at all included), the run prints the usage message and returns 1. Nothing else
  has happened by then: the trace holds that one message, no file was parsed, no backend
  call was made, and the files are as they were.\<close>

theorem generator_wrong_arity_fails:
  assumes "called_as_generator argv0"
      and "g_option_context_parse env args = Inr opts"
      and "\<forall>fl. files opts = Some fl \<longrightarrow> length fl \<noteq> 3"
  shows "main env p0 argv0 args fs0 =
           (Exit 1,
            \<lparr>any_networkd = False, parsed = p0, fs = fs0,
             trace = [Stderr (argv0 @ '' can not be called directly, use 'netplan generate'.'')]\<rparr>)"
proof -
  have "generator_check argv0 opts (initial_state p0 fs0 :: ('a, 'b, 'c, 'd) state) =
          Inl (Exit 1, emit (Stderr (argv0 @ '' can not be called directly, use 'netplan generate'.''))
                 (initial_state p0 fs0))"
    using assms(3)
    by (auto simp: generator_check_def Let_def split: option.split list.split)
  then show ?thesis
    using assms(1,2) by (simp add: main_def Let_def emit_def initial_state_def)
qed

text \<open>Two directories instead of three.\<close>

theorem generator_wrong_arity_fails_witness:
  "called_as_generator generator_argv0 \<and>
   main example_env [] generator_argv0 [''/run/systemd/generator'', ''/run/systemd/generator.early''] Map.empty =
     (Exit 1,
      \<lparr>any_networkd = False, parsed = [], fs = Map.empty,
       trace = [Stderr ''/lib/systemd/system-generators/netplan can not be called directly, use 'netplan generate'.'']\<rparr>)"
proof -
  have g: "called_as_generator generator_argv0"
    by (simp add: called_as_generator_def generator_argv0_def)
  have p: "g_option_context_parse example_env [''/run/systemd/generator'', ''/run/systemd/generator.early''] =
             Inr \<lparr>rootdir = None, files = Some [''/run/systemd/generator'', ''/run/systemd/generator.early'']\<rparr>"
    by (simp add: example_env_def)
  have a: "\<forall>fl. files \<lparr>rootdir = None, files = Some [''/run/systemd/generator'', ''/run/systemd/generator.early'']\<rparr> = Some fl
             \<longrightarrow> length fl \<noteq> 3"
    by auto
  from generator_wrong_arity_fails [OF g p a, of "[]" Map.empty] g show ?thesis
    by (simp add: generator_argv0_def)
qed

subsection \<open>C8: a parse error ends the run\<close>

text \<open>C8. If a call of \<^verbatim>\<open>parse_yaml\<close> fails, the run prints the message the parser
  supplied, followed by a newline, and exits with status 1 right there: every earlier call
  of the run was a successful parse, no later file is read, the parser's state is left as
  it was at the failing call, and there is no cleanup or any other call.\<close>

theorem parse_error_stops_run:
  assumes "main env p0 argv0 args fs0 = (out, s)"
      and "Parse_yaml f (Some msg) \<in> set (trace s)"
  shows "out = Exit 1 \<and>
         (\<exists>pre. trace s = map (\<lambda>g. Parse_yaml g None) pre @
                            [Parse_yaml f (Some msg), Stderr (msg @ ''\<newline>'')]) \<and>
         parse_yaml env f (parsed s) = Inl msg \<and>
         \<not> any_networkd s \<and> fs s = fs0"
proof (cases "g_option_context_parse env args")
  case (Inl m)
  from main_option_error [OF Inl, of p0 argv0 fs0] assms show ?thesis by auto
next
  case (Inr opts)
  from Inr assms(1) show ?thesis
  proof (cases rule: main_shape)
    case (stderr_only m)
    with assms(2) show ?thesis by simp
  next
    case (parse_error pre g post m)
    with assms(2) have "f = g" "msg = m" by auto
    with parse_error show ?thesis by auto
  next
    case finalize_abort
    with assms(2) show ?thesis by auto
  next
    case (dispatched g)
    with assms(2) show ?thesis by auto
  qed
qed

text \<open>Three files on the command line, the second one malformed.\<close>

theorem parse_error_stops_run_witness:
  "Parse_yaml ''bad.yaml'' (Some ''bad.yaml: syntax error'')
     \<in> set (trace (snd (main example_env [] ''/usr/sbin/netplan-generate''
                              [''a.yaml'', ''bad.yaml'', ''c.yaml''] Map.empty))) \<and>
   fst (main example_env [] ''/usr/sbin/netplan-generate'' [''a.yaml'', ''bad.yaml'', ''c.yaml''] Map.empty) = Exit 1 \<and>
   \<not> any_networkd (snd (main example_env [] ''/usr/sbin/netplan-generate''
                           [''a.yaml'', ''bad.yaml'', ''c.yaml''] Map.empty)) \<and>
   (\<exists>pre. trace (snd (main example_env [] ''/usr/sbin/netplan-generate''
                           [''a.yaml'', ''bad.yaml'', ''c.yaml''] Map.empty)) =
      map (\<lambda>g. Parse_yaml g None) pre @
      [Parse_yaml ''bad.yaml'' (Some ''bad.yaml: syntax error''), Stderr ''bad.yaml: syntax error\<newline>''])"
proof -
  let ?r = "main example_env [] ''/usr/sbin/netplan-generate'' [''a.yaml'', ''bad.yaml'', ''c.yaml''] Map.empty"
  have m: "?r = (fst ?r, snd ?r)" by simp
  have e: "Parse_yaml ''bad.yaml'' (Some ''bad.yaml: syntax error'') \<in> set (trace (snd ?r))"
    by (simp add: example_parse_error_run)
  from parse_error_stops_run [OF m e] e show ?thesis
    by simp
qed

subsection \<open>C9: cleanup comes before every backend write\<close>

text \<open>C9. A run that reaches the dispatch phase (\<^verbatim>\<open>finish_parse\<close> succeeded) calls
  \<^verbatim>\<open>cleanup_networkd_conf\<close> and then \<^verbatim>\<open>cleanup_nm_conf\<close>, once each; no backend
  write and no cleanup comes before them and no cleanup after them, so every write of the
  run follows both cleanups. A run that does not reach the dispatch phase makes neither a
  cleanup nor a write. What the cleanup removes is decided in networkd.c and nm.c; for any
  effect \<open>eff\<close> of the calls on the outside world and any property \<open>P\<close> of it (such as
  "the stale file is absent"): if one of the two cleanups establishes \<open>P\<close> and no call of
  the run destroys it, \<open>P\<close> holds when the run is over.\<close>

theorem cleanup_before_any_write:
  assumes "g_option_context_parse env args = Inr opts"
      and "main env p0 argv0 args fs0 = (out, s)"
  shows "(if Finish_parse True \<in> set (trace s)
          then \<exists>before after.
                 trace s = before @ [Cleanup_networkd_conf (rootdir opts), Cleanup_nm_conf (rootdir opts)] @ after \<and>
                 (\<forall>e \<in> set before. \<not> backend_write e \<and> \<not> cleanup_call e) \<and>
                 (\<forall>e \<in> set after. \<not> cleanup_call e)
          else \<forall>e \<in> set (trace s). \<not> backend_write e \<and> \<not> cleanup_call e) \<and>
         (Finish_parse True \<in> set (trace s) \<and>
          (c = Cleanup_networkd_conf (rootdir opts) \<or> c = Cleanup_nm_conf (rootdir opts)) \<and>
          (\<forall>w. P (eff c w)) \<and> (\<forall>e w. e \<in> set (trace s) \<and> P w \<longrightarrow> P (eff e w))
          \<longrightarrow> P (fold eff (trace s) w0))"
  using assms
proof (cases rule: main_shape)
  case (stderr_only msg)
  then show ?thesis by simp
next
  case (parse_error pre f post msg)
  then show ?thesis by auto
next
  case finalize_abort
  then show ?thesis by auto
next
  case (dispatched g)
  let ?before = "map (\<lambda>f. Parse_yaml f None) (input_files env argv0 opts) @ [Finish_parse True]"
  let ?after = "output_events env (rootdir opts) (parsed s) @ policy_events env (rootdir opts) (parsed s) @
                finish_events env g (any_networkd s)"
  have fp: "Finish_parse True \<in> set (trace s)"
    unfolding dispatched(1) by simp
  have tr: "trace s = ?before @ [Cleanup_networkd_conf (rootdir opts), Cleanup_nm_conf (rootdir opts)] @ ?after"
    unfolding dispatched(1) by simp
  have b: "\<forall>e \<in> set ?before. \<not> backend_write e \<and> \<not> cleanup_call e"
    by auto
  have a: "\<forall>e \<in> set ?after. \<not> cleanup_call e"
    by (auto simp: udevadm_reload_def
        dest!: output_events_kinds policy_events_kinds finish_events_kinds backend_write_not_cleanup)
  have shape: "\<exists>before after.
                 trace s = before @ [Cleanup_networkd_conf (rootdir opts), Cleanup_nm_conf (rootdir opts)] @ after \<and>
                 (\<forall>e \<in> set before. \<not> backend_write e \<and> \<not> cleanup_call e) \<and>
                 (\<forall>e \<in> set after. \<not> cleanup_call e)"
    using tr a b by blast
  have eff: "P (fold eff (trace s) w0)"
    if "c = Cleanup_networkd_conf (rootdir opts) \<or> c = Cleanup_nm_conf (rootdir opts)"
       "\<forall>w. P (eff c w)" "\<forall>e w. e \<in> set (trace s) \<and> P w \<longrightarrow> P (eff e w)"
  proof (rule fold_establishes [where c = c])
    show "c \<in> set (trace s)" using that(1) unfolding dispatched(1) by auto
    show "P (eff c w)" for w using that(2) by simp
    show "P (eff e w)" if "e \<in> set (trace s)" "P w" for e w
      using that \<open>\<forall>e w. e \<in> set (trace s) \<and> P w \<longrightarrow> P (eff e w)\<close> by blast
  qed
  from fp shape eff show ?thesis by simp
qed

text \<open>The generator run on the example tree; the stale file of a definition that is gone
  is absent afterwards.\<close>

theorem cleanup_before_any_write_witness:
  "(\<exists>before after.
      trace (snd (main example_env [] generator_argv0 generator_args Map.empty)) =
        before @ [Cleanup_networkd_conf None, Cleanup_nm_conf None] @ after \<and>
      (\<forall>e \<in> set before. \<not> backend_write e \<and> \<not> cleanup_call e) \<and>
      (\<forall>e \<in> set after. \<not> cleanup_call e)) \<and>
   ''10-netplan-eth9.network''
     \<notin> fold example_effect (trace (snd (main example_env [] generator_argv0 generator_args Map.empty)))
         {''10-netplan-eth9.network''}"
proof -
  let ?r = "main example_env [] generator_argv0 generator_args Map.empty"
  let ?P = "\<lambda>w. ''10-netplan-eth9.network'' \<notin> w"
  have p: "g_option_context_parse example_env generator_args =
             Inr \<lparr>rootdir = None, files = Some generator_args\<rparr>"
    by (simp add: example_env_def generator_args_def)
  have m: "?r = (fst ?r, snd ?r)" by simp
  have f: "Finish_parse True \<in> set (trace (snd ?r))" by (simp add: example_generator_run)
  have c: "\<forall>w. ?P (example_effect (Cleanup_networkd_conf None) w)"
    by (simp add: example_effect_def)
  have e: "\<forall>e w. e \<in> set (trace (snd ?r)) \<and> ?P w \<longrightarrow> ?P (example_effect e w)"
    by (auto simp: example_effect_def split: event.split)
  from cleanup_before_any_write [OF p m, where c = "Cleanup_networkd_conf None" and P = ?P
      and eff = example_effect and ?w0.0 = "{''10-netplan-eth9.network''}"] f c e
  show ?thesis by simp
qed

subsection \<open>C10: the generator's directories are not read as input\<close>



end
